theory Spec2Isabelle
  imports Complex_Main
begin

section \<open>JavaScript numbers\<close>

text \<open>
  The geometry engine of the cycloidal reducer design tool (\<^verbatim>\<open>src/utils/geometry.ts\<close>,
  \<^verbatim>\<open>utils/dxf\<close>, \<^verbatim>\<open>types\<close>) computes with JavaScript numbers. A number is modelled as a
  real or one of the three special values of IEEE 754: the arithmetic is exact (no rounding, no
  overflow, no underflow), and the special values arise and propagate as ECMAScript prescribes
  (a division by zero, \<^verbatim>\<open>0/0\<close>, a comparison with NaN). The two zeros are one value; a zero
  divisor counts as \<^verbatim>\<open>+0\<close>, which is what an integer count or an exact
  cancellation of a sum delivers.
\<close>

datatype jsnum = Fin real | PInf | NInf | NaN

instantiation jsnum :: "{plus, minus, uminus, times, inverse, abs, ord}"
begin

fun plus_jsnum :: "jsnum \<Rightarrow> jsnum \<Rightarrow> jsnum" where
  "Fin a + Fin b = Fin (a + b)"
| "NaN + _ = NaN"
| "_ + NaN = NaN"
| "PInf + NInf = NaN"
| "NInf + PInf = NaN"
| "PInf + _ = PInf"
| "_ + PInf = PInf"
| "NInf + _ = NInf"
| "_ + NInf = NInf"

fun uminus_jsnum :: "jsnum \<Rightarrow> jsnum" where
  "- Fin a = Fin (- a)"
| "- PInf = NInf"
| "- NInf = PInf"
| "- NaN = NaN"

definition minus_jsnum :: "jsnum \<Rightarrow> jsnum \<Rightarrow> jsnum" where
  "a - b = a + (- b)" for a b :: jsnum

fun times_jsnum :: "jsnum \<Rightarrow> jsnum \<Rightarrow> jsnum" where
  "Fin a * Fin b = Fin (a * b)"
| "NaN * _ = NaN"
| "_ * NaN = NaN"
| "PInf * Fin b = (if b = 0 then NaN else if 0 < b then PInf else NInf)"
| "NInf * Fin b = (if b = 0 then NaN else if 0 < b then NInf else PInf)"
| "Fin a * PInf = (if a = 0 then NaN else if 0 < a then PInf else NInf)"
| "Fin a * NInf = (if a = 0 then NaN else if 0 < a then NInf else PInf)"
| "PInf * PInf = PInf"
| "PInf * NInf = NInf"
| "NInf * PInf = NInf"
| "NInf * NInf = PInf"

fun divide_jsnum :: "jsnum \<Rightarrow> jsnum \<Rightarrow> jsnum" where
  "divide (Fin a) (Fin b) =
     (if b \<noteq> 0 then Fin (a / b)
      else if 0 < a then PInf else if a < 0 then NInf else NaN)"
| "divide NaN _ = NaN"
| "divide _ NaN = NaN"
| "divide (Fin a) PInf = Fin 0"
| "divide (Fin a) NInf = Fin 0"
| "divide PInf (Fin b) = (if 0 \<le> b then PInf else NInf)"
| "divide NInf (Fin b) = (if 0 \<le> b then NInf else PInf)"
| "divide PInf PInf = NaN"
| "divide PInf NInf = NaN"
| "divide NInf PInf = NaN"
| "divide NInf NInf = NaN"

definition inverse_jsnum :: "jsnum \<Rightarrow> jsnum" where
  "inverse a = divide (Fin 1) a" for a :: jsnum

fun abs_jsnum :: "jsnum \<Rightarrow> jsnum" where
  "\<bar>Fin a\<bar> = Fin \<bar>a\<bar>"
| "\<bar>PInf\<bar> = PInf"
| "\<bar>NInf\<bar> = PInf"
| "\<bar>NaN\<bar> = NaN"

fun less_jsnum :: "jsnum \<Rightarrow> jsnum \<Rightarrow> bool" where
  "Fin a < Fin b \<longleftrightarrow> a < b"
| "NaN < _ \<longleftrightarrow> False"
| "_ < NaN \<longleftrightarrow> False"
| "_ < NInf \<longleftrightarrow> False"
| "PInf < _ \<longleftrightarrow> False"
| "Fin a < PInf \<longleftrightarrow> True"
| "NInf < _ \<longleftrightarrow> True"

fun less_eq_jsnum :: "jsnum \<Rightarrow> jsnum \<Rightarrow> bool" where
  "Fin a \<le> Fin b \<longleftrightarrow> a \<le> b"
| "NaN \<le> _ \<longleftrightarrow> False"
| "_ \<le> NaN \<longleftrightarrow> False"
| "NInf \<le> _ \<longleftrightarrow> True"
| "_ \<le> PInf \<longleftrightarrow> True"
| "_ \<le> NInf \<longleftrightarrow> False"
| "PInf \<le> _ \<longleftrightarrow> False"

instance ..

end

text \<open>\<^verbatim>\<open>isNaN\<close>, and the functions of \<^verbatim>\<open>Math\<close> that the source calls.\<close>

fun isNaN :: "jsnum \<Rightarrow> bool" where
  "isNaN NaN = True"
| "isNaN _ = False"

fun Math_cos :: "jsnum \<Rightarrow> jsnum" where
  "Math_cos (Fin a) = Fin (cos a)"
| "Math_cos _ = NaN"

fun Math_sin :: "jsnum \<Rightarrow> jsnum" where
  "Math_sin (Fin a) = Fin (sin a)"
| "Math_sin _ = NaN"

fun Math_sqrt :: "jsnum \<Rightarrow> jsnum" where
  "Math_sqrt (Fin a) = (if a < 0 then NaN else Fin (sqrt a))"
| "Math_sqrt PInf = PInf"
| "Math_sqrt _ = NaN"

text \<open>\<^verbatim>\<open>Math.pow(b, 1.5)\<close>: the only exponent of the source's curvature formula.\<close>

fun Math_pow_1_5 :: "jsnum \<Rightarrow> jsnum" where
  "Math_pow_1_5 (Fin b) = (if b < 0 then NaN else Fin (b powr (3 / 2)))"
| "Math_pow_1_5 PInf = PInf"
| "Math_pow_1_5 NInf = PInf"
| "Math_pow_1_5 NaN = NaN"

fun Math_max :: "jsnum \<Rightarrow> jsnum \<Rightarrow> jsnum" where
  "Math_max NaN _ = NaN"
| "Math_max _ NaN = NaN"
| "Math_max a b = (if a < b then b else a)"

text \<open>
  \<^verbatim>\<open>Math.atan2(y, x)\<close>: the angle of the point \<open>(x, y)\<close>, in \<open>(-\<pi>, \<pi>]\<close>, with the
  values ECMAScript fixes for the origin and for infinite arguments.
\<close>

definition atan2_real :: "real \<Rightarrow> real \<Rightarrow> real" where
  "atan2_real b a =
     (if 0 < a then arctan (b / a)
      else if a < 0 then (if 0 \<le> b then arctan (b / a) + pi else arctan (b / a) - pi)
      else if 0 < b then pi / 2 else if b < 0 then - (pi / 2) else 0)"

fun Math_atan2 :: "jsnum \<Rightarrow> jsnum \<Rightarrow> jsnum" where
  "Math_atan2 (Fin b) (Fin a) = Fin (atan2_real b a)"
| "Math_atan2 NaN _ = NaN"
| "Math_atan2 _ NaN = NaN"
| "Math_atan2 (Fin b) PInf = Fin 0"
| "Math_atan2 (Fin b) NInf = (if 0 \<le> b then Fin pi else Fin (- pi))"
| "Math_atan2 PInf (Fin a) = Fin (pi / 2)"
| "Math_atan2 NInf (Fin a) = Fin (- (pi / 2))"
| "Math_atan2 PInf PInf = Fin (pi / 4)"
| "Math_atan2 PInf NInf = Fin (3 * pi / 4)"
| "Math_atan2 NInf PInf = Fin (- (pi / 4))"
| "Math_atan2 NInf NInf = Fin (- (3 * pi / 4))"

definition Math_PI :: jsnum where
  "Math_PI = Fin pi"

text \<open>\<^verbatim>\<open>Number.MAX_VALUE\<close>, the largest double: \<open>(2 - 2\<^sup>-\<^sup>5\<^sup>2) \<sqdot> 2\<^sup>1\<^sup>0\<^sup>2\<^sup>3\<close>.\<close>

definition MAX_VALUE :: real where
  "MAX_VALUE = 2 ^ 1024 - 2 ^ 971"

section \<open>The data model (\<^verbatim>\<open>types\<close>)\<close>

text \<open>
  \<^verbatim>\<open>CycloParams\<close>. The three counts are natural numbers (the controls deliver them in steps
  of one); the lengths are numbers, of type \<open>'n\<close>: \<^typ>\<open>jsnum\<close> for the records the
  functions take and return, \<^typ>\<open>real\<close> for a parameter set of finite numbers, which
  \<open>js\<close> below turns into the former.
\<close>

datatype drive_config = housingFixed | outputFixed

record 'n cyclo_params =
  pinCount :: nat
  pinCircleRadius :: 'n
  pinRadius :: 'n
  eccentricity :: 'n
  holeRadius :: 'n
  resolution :: nat
  tolerance :: 'n
  holeTolerance :: 'n
  outputPinCount :: nat
  outputPinRadius :: 'n
  outputPinCircleRadius :: 'n
  driveConfig :: drive_config

definition js :: "real cyclo_params \<Rightarrow> jsnum cyclo_params" where
  "js p =
     \<lparr>pinCount = pinCount p,
      pinCircleRadius = Fin (pinCircleRadius p),
      pinRadius = Fin (pinRadius p),
      eccentricity = Fin (eccentricity p),
      holeRadius = Fin (holeRadius p),
      resolution = resolution p,
      tolerance = Fin (tolerance p),
      holeTolerance = Fin (holeTolerance p),
      outputPinCount = outputPinCount p,
      outputPinRadius = Fin (outputPinRadius p),
      outputPinCircleRadius = Fin (outputPinCircleRadius p),
      driveConfig = driveConfig p\<rparr>"

text \<open>\<^verbatim>\<open>Point\<close>: the position, and the optional normal and physics attributes.\<close>

record point =
  x :: jsnum
  y :: jsnum
  nx :: "jsnum option"
  ny :: "jsnum option"
  pressureAngle :: "jsnum option"
  curvatureRadius :: "jsnum option"

section \<open>\<^verbatim>\<open>generateCycloidProfile\<close>\<close>

text \<open>
  The body of the sampling loop for the index \<open>i\<close>, with \<open>r = pinRadius + effectiveTolerance\<close>:
  the point it pushes, or \<open>None\<close> where it takes \<^verbatim>\<open>continue\<close>.
\<close>

definition profile_sample :: "jsnum cyclo_params \<Rightarrow> jsnum \<Rightarrow> nat \<Rightarrow> point option" where
  "profile_sample p r i =
     (let N = Fin (real (pinCount p));
          R = pinCircleRadius p;
          E = eccentricity p;
          t = (Fin (real i) / Fin (real (resolution p))) * Fin 2 * Math_PI;
          sx = R * Math_cos t - E * Math_cos (N * t);
          sy = R * Math_sin t - E * Math_sin (N * t);
          dxdt = - R * Math_sin t + E * N * Math_sin (N * t);
          dydt = R * Math_cos t - E * N * Math_cos (N * t);
          len = Math_sqrt (dxdt * dxdt + dydt * dydt)
      in if len < Fin (1 / 10 ^ 6) \<or> isNaN len then None
         else
           (let nx' = - dydt / len;
                ny' = dxdt / len;
                px = sx + r * nx';
                py = sy + r * ny'
            in Some \<lparr>x = px, y = py, nx = Some nx', ny = Some ny',
                     pressureAngle = None, curvatureRadius = None\<rparr>))"

text \<open>The loop \<^verbatim>\<open>for (let i = 0; i <= resolution; i++)\<close>, from the index \<open>i\<close> on.\<close>

function profile_loop :: "jsnum cyclo_params \<Rightarrow> jsnum \<Rightarrow> nat \<Rightarrow> point list \<Rightarrow> point list" where
  "profile_loop p r i points =
     (if i \<le> resolution p
      then profile_loop p r (Suc i)
             (case profile_sample p r i of None \<Rightarrow> points | Some q \<Rightarrow> points @ [q])
      else points)"
  by pat_completeness auto
termination
  by (relation "measure (\<lambda>(p, r, i, points). Suc (resolution p) - i)") auto

declare profile_loop.simps [simp del]

definition generateCycloidProfile :: "jsnum cyclo_params \<Rightarrow> jsnum option \<Rightarrow> point list" where
  "generateCycloidProfile p overrideTolerance =
     (let effectiveTolerance =
            (case overrideTolerance of Some v \<Rightarrow> v | None \<Rightarrow> tolerance p);
          r = pinRadius p + effectiveTolerance
      in profile_loop p r 0 [])"

section \<open>\<^verbatim>\<open>calculatePhysicsMetrics\<close>\<close>

record physics_metrics =
  minCurvatureRadius :: jsnum
  maxPressureAngle :: jsnum
  points :: "point list"

text \<open>
  The body of the loop for the index \<open>i\<close>, on the three locals \<^verbatim>\<open>minCurvatureRadius\<close>,
  \<^verbatim>\<open>maxPressureAngle\<close> and \<^verbatim>\<open>points\<close>. The guard is \<^verbatim>\<open>len < 1e-6\<close> alone: a NaN
  length is not skipped here.
\<close>

definition physics_step :: "jsnum cyclo_params \<Rightarrow> nat \<Rightarrow> physics_metrics \<Rightarrow> physics_metrics" where
  "physics_step p i s =
     (let N = Fin (real (pinCount p));
          R = pinCircleRadius p;
          E = eccentricity p;
          r = pinRadius p;
          t = (Fin (real i) / Fin (real (resolution p))) * Fin 2 * Math_PI;
          dxdt = - R * Math_sin t + E * N * Math_sin (N * t);
          dydt = R * Math_cos t - E * N * Math_cos (N * t);
          len = Math_sqrt (dxdt * dxdt + dydt * dydt)
      in if len < Fin (1 / 10 ^ 6) then s
         else
           (let K = (E * N) / R;
                num = K * Math_sin (N * t);
                den = Fin 1 - K * Math_cos (N * t);
                pressureRad = Math_atan2 \<bar>num\<bar> \<bar>den\<bar>;
                pressureDeg = pressureRad * (Fin 180 / Math_PI);
                maxPressureAngle' =
                  (if maxPressureAngle s < pressureDeg then pressureDeg else maxPressureAngle s);
                phi = (N - Fin 1) * t;
                term1 = R * R + E * E * N * N - Fin 2 * R * E * N * Math_cos phi;
                numerator = Math_pow_1_5 term1;
                denominator = R * R + E * E * N * N * N - R * E * N * (N + Fin 1) * Math_cos phi;
                rho = numerator / denominator;
                surfaceCurvature = rho - r;
                minCurvatureRadius' =
                  (if \<bar>surfaceCurvature\<bar> < \<bar>minCurvatureRadius s\<bar> then surfaceCurvature
                   else minCurvatureRadius s);
                nx' = - dydt / len;
                ny' = dxdt / len;
                sx = R * Math_cos t - E * Math_cos (N * t);
                sy = R * Math_sin t - E * Math_sin (N * t)
            in \<lparr>minCurvatureRadius = minCurvatureRadius',
                maxPressureAngle = maxPressureAngle',
                points = points s @
                  [\<lparr>x = sx + r * nx', y = sy + r * ny', nx = Some nx', ny = Some ny',
                    pressureAngle = Some pressureDeg,
                    curvatureRadius = Some surfaceCurvature\<rparr>]\<rparr>))"

function physics_loop :: "jsnum cyclo_params \<Rightarrow> nat \<Rightarrow> physics_metrics \<Rightarrow> physics_metrics" where
  "physics_loop p i s =
     (if i \<le> resolution p then physics_loop p (Suc i) (physics_step p i s) else s)"
  by pat_completeness auto
termination
  by (relation "measure (\<lambda>(p, i, s). Suc (resolution p) - i)") auto

declare physics_loop.simps [simp del]

definition calculatePhysicsMetrics :: "jsnum cyclo_params \<Rightarrow> physics_metrics" where
  "calculatePhysicsMetrics p =
     physics_loop p 0
       \<lparr>minCurvatureRadius = Fin MAX_VALUE, maxPressureAngle = Fin 0, points = []\<rparr>"

section \<open>Numbers as text\<close>

text \<open>
  \<^verbatim>\<open>Number.prototype.toFixed\<close>. Below \<open>10\<^sup>2\<^sup>1\<close> the result is the fixed notation: the
  integer \<open>n\<close> nearest to \<open>x \<sqdot> 10\<^sup>f\<close> (the larger one on a tie), its decimal digits filled with
  zeros to \<open>f + 1\<close> places, and the point before the last \<open>f\<close>. From \<open>10\<^sup>2\<^sup>1\<close> on, and for the
  special values, it is the number-to-string conversion of the language, which is the
  parameter \<open>numToString\<close> (the same conversion fills in the template literals of the source).
\<close>

definition digit_char :: "nat \<Rightarrow> char" where
  "digit_char d = ''0123456789'' ! d"

fun nat_digits :: "nat \<Rightarrow> string" where
  "nat_digits n =
     (if n < 10 then [digit_char n] else nat_digits (n div 10) @ [digit_char (n mod 10)])"

declare nat_digits.simps [simp del]

definition fixed_notation :: "nat \<Rightarrow> real \<Rightarrow> string" where
  "fixed_notation f b =
     (let n = nat \<lfloor>b * 10 ^ f + 1 / 2\<rfloor>;
          m = nat_digits n
      in if f \<noteq> 0
         then (let z = replicate (Suc f - length m) (CHR ''0'') @ m;
                   k = length z
               in take (k - f) z @ ''.'' @ drop (k - f) z)
         else m)"

fun toFixed :: "(jsnum \<Rightarrow> string) \<Rightarrow> nat \<Rightarrow> jsnum \<Rightarrow> string" where
  "toFixed numToString f (Fin a) =
     (let s = (if a < 0 then ''-'' else []);
          b = \<bar>a\<bar>
      in if 10 ^ 21 \<le> b then s @ numToString (Fin b) else s @ fixed_notation f b)"
| "toFixed numToString f NaN = ''NaN''"
| "toFixed numToString f PInf = ''Infinity''"
| "toFixed numToString f NInf = ''-Infinity''"

text \<open>
  \<^verbatim>\<open>parseFloat(v.toFixed(f))\<close>, as a number: reading the text back gives the rounded value
  \<open>n / 10\<^sup>f\<close> with the sign, and the number itself where \<^verbatim>\<open>toFixed\<close> falls back on the
  number-to-string conversion.
\<close>

fun parseFloat_toFixed :: "nat \<Rightarrow> jsnum \<Rightarrow> jsnum" where
  "parseFloat_toFixed f (Fin a) =
     (if 10 ^ 21 \<le> \<bar>a\<bar> then Fin a
      else Fin ((if a < 0 then - 1 else 1) * real (nat \<lfloor>\<bar>a\<bar> * 10 ^ f + 1 / 2\<rfloor>) / 10 ^ f))"
| "parseFloat_toFixed f v = v"

section \<open>\<^verbatim>\<open>getDiscSVGPath\<close>\<close>

text \<open>
  The line generator of d3 (\<^verbatim>\<open>d3.line().x(..).y(..).curve(d3.curveLinearClosed)\<close>) is a
  parameter: it returns the outline's path text, or \<^verbatim>\<open>null\<close>.
\<close>

definition hole_path :: "(jsnum \<Rightarrow> string) \<Rightarrow> jsnum \<Rightarrow> jsnum \<Rightarrow> nat \<Rightarrow> nat \<Rightarrow> string" where
  "hole_path numToString holeR holeDist numHoles i =
     (let angle = (Fin (real i) / Fin (real numHoles)) * Fin 2 * Math_PI;
          cx = holeDist * Math_cos angle;
          cy = holeDist * Math_sin angle
      in '' M '' @ numToString (cx + holeR) @ '' '' @ numToString cy
         @ '' A '' @ numToString holeR @ '' '' @ numToString holeR @ '' 0 1 0 ''
             @ numToString (cx - holeR) @ '' '' @ numToString cy
         @ '' A '' @ numToString holeR @ '' '' @ numToString holeR @ '' 0 1 0 ''
             @ numToString (cx + holeR) @ '' '' @ numToString cy)"

function holes_loop ::
  "(jsnum \<Rightarrow> string) \<Rightarrow> jsnum \<Rightarrow> jsnum \<Rightarrow> nat \<Rightarrow> nat \<Rightarrow> string \<Rightarrow> string" where
  "holes_loop numToString holeR holeDist numHoles i pathD =
     (if i < numHoles
      then holes_loop numToString holeR holeDist numHoles (Suc i)
             (pathD @ hole_path numToString holeR holeDist numHoles i)
      else pathD)"
  by pat_completeness auto
termination
  by (relation "measure (\<lambda>(f, holeR, holeDist, numHoles, i, pathD). numHoles - i)") auto

declare holes_loop.simps [simp del]

definition getDiscSVGPath ::
  "(point list \<Rightarrow> string option) \<Rightarrow> (jsnum \<Rightarrow> string) \<Rightarrow> point list \<Rightarrow> jsnum cyclo_params \<Rightarrow> string" where
  "getDiscSVGPath lineGenerator numToString profilePoints p =
     (let pathD = (case lineGenerator profilePoints of Some d \<Rightarrow> d | None \<Rightarrow> []);
          holeR = outputPinRadius p + eccentricity p + holeTolerance p;
          numHoles = outputPinCount p;
          holeDist = outputPinCircleRadius p
      in holes_loop numToString holeR holeDist numHoles 0 pathD)"

section \<open>\<^verbatim>\<open>generateDXF\<close>\<close>

definition dxf_vertex :: "(jsnum \<Rightarrow> string) \<Rightarrow> string \<Rightarrow> point \<Rightarrow> string" where
  "dxf_vertex numToString dxf q =
     (dxf @ ''0\<newline>VERTEX\<newline>8\<newline>CycloidProfile\<newline>'')
       @ (''10\<newline>'' @ toFixed numToString 4 (x q) @ ''\<newline>20\<newline>''
            @ toFixed numToString 4 (y q) @ ''\<newline>30\<newline>0.0\<newline>'')"

definition generateDXF ::
  "(jsnum \<Rightarrow> string) \<Rightarrow> point list \<Rightarrow> point list \<Rightarrow> jsnum cyclo_params \<Rightarrow> string" where
  "generateDXF numToString pts holes p =
     (let dxf = ''0\<newline>SECTION\<newline>2\<newline>ENTITIES\<newline>'';
          dxf = dxf @ ''0\<newline>POLYLINE\<newline>8\<newline>CycloidProfile\<newline>66\<newline>1\<newline>70\<newline>1\<newline>'';
          dxf = foldl (dxf_vertex numToString) dxf pts;
          dxf = dxf @ ''0\<newline>SEQEND\<newline>'';
          effectiveHoleRadius = holeRadius p + holeTolerance p;
          dxf = dxf @ ''0\<newline>CIRCLE\<newline>8\<newline>CenterHole\<newline>'';
          dxf = dxf @ ''10\<newline>0.0\<newline>20\<newline>0.0\<newline>30\<newline>0.0\<newline>'';
          dxf = dxf @ (''40\<newline>'' @ toFixed numToString 4 effectiveHoleRadius @ ''\<newline>'');
          dxf = dxf @ ''0\<newline>ENDSEC\<newline>0\<newline>EOF\<newline>''
      in dxf)"

section \<open>\<^verbatim>\<open>getGeometricQuality\<close>\<close>

record geometric_fix =
  label :: string
  description :: string
  params :: "jsnum cyclo_params"

record geometric_quality =
  valid :: bool
  warnings :: "string list"
  "fixes" :: "geometric_fix list"

text \<open>
  The three rules, each on the two lists \<^verbatim>\<open>warnings\<close> and \<^verbatim>\<open>fixes\<close> that the source
  pushes to. \<^verbatim>\<open>{ ...params, eccentricity: safeE }\<close> is the record update.
\<close>

definition eccentricity_rule ::
  "(jsnum \<Rightarrow> string) \<Rightarrow> jsnum cyclo_params \<Rightarrow>
   string list \<times> geometric_fix list \<Rightarrow> string list \<times> geometric_fix list" where
  "eccentricity_rule numToString p = (\<lambda>(warnings, fixes).
     let N = Fin (real (pinCount p));
         maxSafeEccentricity = pinCircleRadius p / (Fin 1.5 * N)
     in if maxSafeEccentricity < eccentricity p
        then
          (let warnings = warnings @
                 [''Eccentricity ('' @ numToString (eccentricity p)
                    @ ''mm) is too high for this radius.''];
               safeE = parseFloat_toFixed 2 (pinCircleRadius p / (Fin 2.0 * N));
               fixes = fixes @
                 [\<lparr>label = ''Reduce Eccentricity'',
                   description = ''Lower E to '' @ numToString safeE @ ''mm'',
                   params = p\<lparr>eccentricity := safeE\<rparr>\<rparr>];
               safeR = parseFloat_toFixed 1 (eccentricity p * Fin 2.0 * N);
               fixes = fixes @
                 [\<lparr>label = ''Increase Radius'',
                   description = ''Enlarge R to '' @ numToString safeR @ ''mm'',
                   params = p\<lparr>pinCircleRadius := safeR\<rparr>\<rparr>]
           in (warnings, fixes))
        else (warnings, fixes))"

text \<open>
  The four characters between \<^verbatim>\<open>pin\<close> and \<^verbatim>\<open>to\<close> in the description are the bytes that
  the source file has there.
\<close>

definition pin_crowding_rule ::
  "(jsnum \<Rightarrow> string) \<Rightarrow> jsnum cyclo_params \<Rightarrow>
   string list \<times> geometric_fix list \<Rightarrow> string list \<times> geometric_fix list" where
  "pin_crowding_rule numToString p = (\<lambda>(warnings, fixes).
     let N = Fin (real (pinCount p));
         pinSpacing = (Fin 2 * Math_PI * pinCircleRadius p) / N
     in if pinSpacing * Fin 0.95 < pinRadius p * Fin 2
        then
          (let warnings = warnings @ [''Pins are too large for spacing.''];
               safePinR = parseFloat_toFixed 2 ((pinSpacing * Fin 0.9) / Fin 2);
               fixes = fixes @
                 [\<lparr>label = ''Shrink Pins'',
                   description = ''Reduce pin '' @ [CHR 0xC3, CHR 0x83, CHR 0xCB, CHR 0x9C]
                     @ '' to '' @ numToString (safePinR * Fin 2) @ ''mm'',
                   params = p\<lparr>pinRadius := safePinR\<rparr>\<rparr>]
           in (warnings, fixes))
        else (warnings, fixes))"

definition wall_thickness_rule ::
  "(jsnum \<Rightarrow> string) \<Rightarrow> jsnum cyclo_params \<Rightarrow>
   string list \<times> geometric_fix list \<Rightarrow> string list \<times> geometric_fix list" where
  "wall_thickness_rule numToString p = (\<lambda>(warnings, fixes).
     let N = Fin (real (pinCount p));
         approxInnerRadius = pinCircleRadius p - (N * eccentricity p) - pinRadius p
     in if approxInnerRadius < holeRadius p + Fin 1.5
        then
          (let warnings = warnings @ [''Wall thickness is critically low.''];
               maxHole = Math_max (Fin 2) (approxInnerRadius - Fin 2.0);
               safeHole = parseFloat_toFixed 1 maxHole;
               fixes =
                 (if Fin 0 < safeHole
                  then fixes @
                    [\<lparr>label = ''Shrink Center Hole'',
                      description = ''Set Hole R to '' @ numToString safeHole @ ''mm'',
                      params = p\<lparr>holeRadius := safeHole\<rparr>\<rparr>]
                  else fixes)
           in (warnings, fixes))
        else (warnings, fixes))"

text \<open>
  \<^verbatim>\<open>JSON.stringify\<close> of a parameter record: the keys in the order of the interface, a finite
  number by the number-to-string conversion, NaN and the infinities as \<^verbatim>\<open>null\<close>.
\<close>

definition JSON_number :: "(jsnum \<Rightarrow> string) \<Rightarrow> jsnum \<Rightarrow> string" where
  "JSON_number numToString v = (case v of Fin a \<Rightarrow> numToString v | _ \<Rightarrow> ''null'')"

definition JSON_key :: "string \<Rightarrow> string" where
  "JSON_key k = [CHR 0x22] @ k @ [CHR 0x22] @ '':''"

definition JSON_stringify :: "(jsnum \<Rightarrow> string) \<Rightarrow> jsnum cyclo_params \<Rightarrow> string" where
  "JSON_stringify numToString p =
     ''{'' @ JSON_key ''pinCount'' @ JSON_number numToString (Fin (real (pinCount p)))
     @ '','' @ JSON_key ''pinCircleRadius'' @ JSON_number numToString (pinCircleRadius p)
     @ '','' @ JSON_key ''pinRadius'' @ JSON_number numToString (pinRadius p)
     @ '','' @ JSON_key ''eccentricity'' @ JSON_number numToString (eccentricity p)
     @ '','' @ JSON_key ''holeRadius'' @ JSON_number numToString (holeRadius p)
     @ '','' @ JSON_key ''resolution'' @ JSON_number numToString (Fin (real (resolution p)))
     @ '','' @ JSON_key ''tolerance'' @ JSON_number numToString (tolerance p)
     @ '','' @ JSON_key ''holeTolerance'' @ JSON_number numToString (holeTolerance p)
     @ '','' @ JSON_key ''outputPinCount'' @ JSON_number numToString (Fin (real (outputPinCount p)))
     @ '','' @ JSON_key ''outputPinRadius'' @ JSON_number numToString (outputPinRadius p)
     @ '','' @ JSON_key ''outputPinCircleRadius''
         @ JSON_number numToString (outputPinCircleRadius p)
     @ '','' @ JSON_key ''driveConfig'' @ [CHR 0x22]
         @ (case driveConfig p of housingFixed \<Rightarrow> ''housingFixed'' | outputFixed \<Rightarrow> ''outputFixed'')
         @ [CHR 0x22]
     @ ''}''"

text \<open>\<^verbatim>\<open>Array.prototype.findIndex\<close>: the first index that satisfies the test, or \<open>-1\<close>.\<close>

fun findIndex :: "('a \<Rightarrow> bool) \<Rightarrow> 'a list \<Rightarrow> int" where
  "findIndex P [] = - 1"
| "findIndex P (a # as) =
     (if P a then 0 else (let k = findIndex P as in if k < 0 then - 1 else k + 1))"

definition unique_fixes :: "(jsnum \<Rightarrow> string) \<Rightarrow> geometric_fix list \<Rightarrow> geometric_fix list" where
  "unique_fixes numToString self =
     map snd
       (filter
          (\<lambda>(index, fix). int index =
             findIndex
               (\<lambda>f. label f = label fix \<and>
                  JSON_stringify numToString (params f) = JSON_stringify numToString (params fix))
               self)
          (enumerate 0 self))"

definition getGeometricQuality :: "(jsnum \<Rightarrow> string) \<Rightarrow> jsnum cyclo_params \<Rightarrow> geometric_quality" where
  "getGeometricQuality numToString p =
     (let pushed =
            wall_thickness_rule numToString p
              (pin_crowding_rule numToString p
                (eccentricity_rule numToString p ([], [])));
          uniqueFixes = unique_fixes numToString (snd pushed)
      in \<lparr>valid = (length (fst pushed) = 0), warnings = fst pushed, fixes = uniqueFixes\<rparr>)"

section \<open>The vocabulary of the statements\<close>

text \<open>
  A parameter set of finite numbers is a \<^typ>\<open>real cyclo_params\<close>. The definitions of this
  section state the specification's formulas over the reals; the theorems relate them to
  the functions above.
\<close>

subsection \<open>The sampled curve\<close>

text \<open>The parameter of sample \<open>i\<close>, the pin-centre locus, its tangent and the tangent's length.\<close>

definition sample_angle :: "real cyclo_params \<Rightarrow> nat \<Rightarrow> real" where
  "sample_angle p i = real i / real (resolution p) * 2 * pi"

definition locus_x :: "real cyclo_params \<Rightarrow> real \<Rightarrow> real" where
  "locus_x p t = pinCircleRadius p * cos t - eccentricity p * cos (real (pinCount p) * t)"

definition locus_y :: "real cyclo_params \<Rightarrow> real \<Rightarrow> real" where
  "locus_y p t = pinCircleRadius p * sin t - eccentricity p * sin (real (pinCount p) * t)"

definition tangent_x :: "real cyclo_params \<Rightarrow> real \<Rightarrow> real" where
  "tangent_x p t =
     - pinCircleRadius p * sin t + eccentricity p * real (pinCount p) * sin (real (pinCount p) * t)"

definition tangent_y :: "real cyclo_params \<Rightarrow> real \<Rightarrow> real" where
  "tangent_y p t =
     pinCircleRadius p * cos t - eccentricity p * real (pinCount p) * cos (real (pinCount p) * t)"

definition tangent_len :: "real cyclo_params \<Rightarrow> real \<Rightarrow> real" where
  "tangent_len p t = sqrt (tangent_x p t * tangent_x p t + tangent_y p t * tangent_y p t)"

text \<open>
  Sample \<open>i\<close> is kept by the profile generator: its parameter is a number (with a resolution
  of zero it is \<^verbatim>\<open>0/0\<close>) and its tangent is not shorter than \<open>10\<^sup>-\<^sup>6\<close>.
\<close>

definition emitted :: "real cyclo_params \<Rightarrow> nat \<Rightarrow> bool" where
  "emitted p i \<longleftrightarrow> resolution p \<noteq> 0 \<and> \<not> tangent_len p (sample_angle p i) < 1 / 10 ^ 6"

text \<open>
  The offset point of sample \<open>i\<close> for the clearance \<open>tol\<close>: the locus plus
  \<open>(pinRadius + tol)\<close> times the inward unit normal \<open>(-dy/dt, dx/dt) / |tangent|\<close>.
\<close>

definition offset_point :: "real cyclo_params \<Rightarrow> real \<Rightarrow> nat \<Rightarrow> point" where
  "offset_point p tol i =
     (let t = sample_angle p i;
          n1 = - tangent_y p t / tangent_len p t;
          n2 = tangent_x p t / tangent_len p t
      in \<lparr>x = Fin (locus_x p t + (pinRadius p + tol) * n1),
          y = Fin (locus_y p t + (pinRadius p + tol) * n2),
          nx = Some (Fin n1), ny = Some (Fin n2),
          pressureAngle = None, curvatureRadius = None\<rparr>)"

text \<open>A point moved by the distance \<open>d\<close> along the normal it carries.\<close>

definition displace :: "jsnum \<Rightarrow> point \<Rightarrow> point" where
  "displace d q =
     (case (nx q, ny q) of
        (Some n1, Some n2) \<Rightarrow> q\<lparr>x := x q + d * n1, y := y q + d * n2\<rparr>
      | _ \<Rightarrow> q)"

text \<open>A point whose normal is a unit vector.\<close>

definition unit_normal :: "point \<Rightarrow> bool" where
  "unit_normal q \<longleftrightarrow>
     (case (nx q, ny q) of
        (Some (Fin n1), Some (Fin n2)) \<Rightarrow> n1 * n1 + n2 * n2 = 1
      | _ \<Rightarrow> False)"

text \<open>The tolerance in force for an optional override.\<close>

definition effective_tolerance :: "real cyclo_params \<Rightarrow> real option \<Rightarrow> real" where
  "effective_tolerance p ov = (case ov of Some v \<Rightarrow> v | None \<Rightarrow> tolerance p)"

subsection \<open>The physics samples\<close>

text \<open>
  Sample \<open>i\<close> is kept by the physics analyser unless its tangent is a number below
  \<open>10\<^sup>-\<^sup>6\<close>: with a resolution of zero the one sample has a NaN tangent and is kept.
\<close>

definition physics_emitted :: "real cyclo_params \<Rightarrow> nat \<Rightarrow> bool" where
  "physics_emitted p i \<longleftrightarrow>
     resolution p = 0 \<or> 1 / 10 ^ 6 \<le> tangent_len p (sample_angle p i)"

text \<open>
  The curvature formula of the specification, with \<open>phi = (N - 1) \<sqdot> t\<close>: numerator
  \<open>(R\<^sup>2 + E\<^sup>2N\<^sup>2 - 2REN cos phi)\<^sup>1\<^sup>.\<^sup>5\<close>, denominator \<open>R\<^sup>2 + E\<^sup>2N\<^sup>3 - REN(N+1) cos phi\<close>, and the
  net curvature \<open>rho - pinRadius\<close> of sample \<open>i\<close> as the number the division delivers
  (an infinity where the denominator vanishes).
\<close>

definition rho_numerator :: "real cyclo_params \<Rightarrow> real \<Rightarrow> real" where
  "rho_numerator p t =
     (pinCircleRadius p * pinCircleRadius p
      + eccentricity p * eccentricity p * real (pinCount p) * real (pinCount p)
      - 2 * pinCircleRadius p * eccentricity p * real (pinCount p)
          * cos ((real (pinCount p) - 1) * t)) powr (3 / 2)"

definition rho_denominator :: "real cyclo_params \<Rightarrow> real \<Rightarrow> real" where
  "rho_denominator p t =
     pinCircleRadius p * pinCircleRadius p
     + eccentricity p * eccentricity p * real (pinCount p) * real (pinCount p) * real (pinCount p)
     - pinCircleRadius p * eccentricity p * real (pinCount p) * (real (pinCount p) + 1)
         * cos ((real (pinCount p) - 1) * t)"

definition surface_curvature :: "real cyclo_params \<Rightarrow> nat \<Rightarrow> jsnum" where
  "surface_curvature p i =
     (if resolution p = 0 then NaN
      else Fin (rho_numerator p (sample_angle p i)) / Fin (rho_denominator p (sample_angle p i))
           - Fin (pinRadius p))"

text \<open>
  The pressure angle of the specification, in degrees: \<open>atan2(|K sin(Nt)|, |1 - K cos(Nt)|)\<close>
  with \<open>K = E \<sqdot> N / R\<close>.
\<close>

definition pressure_angle_deg :: "real cyclo_params \<Rightarrow> real \<Rightarrow> real" where
  "pressure_angle_deg p t =
     (let K = eccentricity p * real (pinCount p) / pinCircleRadius p
      in atan2_real \<bar>K * sin (real (pinCount p) * t)\<bar> \<bar>1 - K * cos (real (pinCount p) * t)\<bar>
           * (180 / pi))"

text \<open>The selection step of the running extremum: the candidate replaces the current
  value when its magnitude is smaller.\<close>

definition smaller_magnitude :: "jsnum \<Rightarrow> jsnum \<Rightarrow> jsnum" where
  "smaller_magnitude m c = (if \<bar>c\<bar> < \<bar>m\<bar> then c else m)"

text \<open>The net curvatures of the samples the physics analyser keeps, in their order.\<close>

definition emitted_curvatures :: "real cyclo_params \<Rightarrow> jsnum list" where
  "emitted_curvatures p =
     map (surface_curvature p) (filter (physics_emitted p) [0..<Suc (resolution p)])"

text \<open>The running maximum, and the pressure angles of the samples that take part in it.\<close>

definition larger :: "jsnum \<Rightarrow> jsnum \<Rightarrow> jsnum" where
  "larger m c = (if m < c then c else m)"

definition emitted_pressure_angles :: "real cyclo_params \<Rightarrow> real list" where
  "emitted_pressure_angles p =
     map (\<lambda>i. pressure_angle_deg p (sample_angle p i))
       (filter (emitted p) [0..<Suc (resolution p)])"

subsection \<open>The exported document\<close>

text \<open>
  The entities of the document: a vertex of the polyline for a point, the closed polyline
  (flag 70 = 1) on the layer \<^verbatim>\<open>CycloidProfile\<close> for a point sequence, and the circle on the
  layer \<^verbatim>\<open>CenterHole\<close> about the origin for the text of a radius.
\<close>

definition dxf_vertex_entity :: "(jsnum \<Rightarrow> string) \<Rightarrow> point \<Rightarrow> string" where
  "dxf_vertex_entity numToString q =
     ''0\<newline>VERTEX\<newline>8\<newline>CycloidProfile\<newline>10\<newline>'' @ toFixed numToString 4 (x q)
     @ ''\<newline>20\<newline>'' @ toFixed numToString 4 (y q) @ ''\<newline>30\<newline>0.0\<newline>''"

definition dxf_polyline :: "(jsnum \<Rightarrow> string) \<Rightarrow> point list \<Rightarrow> string" where
  "dxf_polyline numToString pts =
     ''0\<newline>POLYLINE\<newline>8\<newline>CycloidProfile\<newline>66\<newline>1\<newline>70\<newline>1\<newline>''
     @ concat (map (dxf_vertex_entity numToString) pts)
     @ ''0\<newline>SEQEND\<newline>''"

definition dxf_circle :: "string \<Rightarrow> string" where
  "dxf_circle radius =
     ''0\<newline>CIRCLE\<newline>8\<newline>CenterHole\<newline>10\<newline>0.0\<newline>20\<newline>0.0\<newline>30\<newline>0.0\<newline>40\<newline>''
     @ radius @ ''\<newline>''"

text \<open>
  A text with \<open>f\<close> decimal places: digits, at least one, then the point, then exactly \<open>f\<close>
  digits.
\<close>

definition is_digit :: "char \<Rightarrow> bool" where
  "is_digit c \<longleftrightarrow> c \<in> set ''0123456789''"

definition decimal_places :: "nat \<Rightarrow> string \<Rightarrow> bool" where
  "decimal_places f s \<longleftrightarrow>
     Suc f < length s
     \<and> s ! (length s - Suc f) = CHR ''.''
     \<and> list_all is_digit (take (length s - Suc f) s)
     \<and> list_all is_digit (drop (length s - f) s)"

subsection \<open>The hole cutouts of the vector path\<close>

text \<open>
  A cutout of radius \<open>r\<close> about \<open>(cx, cy)\<close>: a move to the rightmost point of the circle, an
  arc to the leftmost point and an arc back, both with the flags \<^verbatim>\<open>0 1 0\<close> (large arc,
  sweep flag 0). Hole \<open>i\<close> of a parameter set lies at the angle \<open>2\<pi>i / outputPinCount\<close>.
\<close>

definition svg_cutout :: "(jsnum \<Rightarrow> string) \<Rightarrow> jsnum \<Rightarrow> jsnum \<Rightarrow> jsnum \<Rightarrow> string" where
  "svg_cutout numToString r cx cy =
     '' M '' @ numToString (cx + r) @ '' '' @ numToString cy
     @ '' A '' @ numToString r @ '' '' @ numToString r @ '' 0 1 0 ''
         @ numToString (cx - r) @ '' '' @ numToString cy
     @ '' A '' @ numToString r @ '' '' @ numToString r @ '' 0 1 0 ''
         @ numToString (cx + r) @ '' '' @ numToString cy"

definition hole_angle :: "real cyclo_params \<Rightarrow> nat \<Rightarrow> real" where
  "hole_angle p i = 2 * pi * real i / real (outputPinCount p)"

definition hole_cutout :: "(jsnum \<Rightarrow> string) \<Rightarrow> real cyclo_params \<Rightarrow> nat \<Rightarrow> string" where
  "hole_cutout numToString p i =
     svg_cutout numToString
       (Fin (outputPinRadius p + eccentricity p + holeTolerance p))
       (Fin (outputPinCircleRadius p * cos (hole_angle p i)))
       (Fin (outputPinCircleRadius p * sin (hole_angle p i)))"

subsection \<open>The advisor's fixes\<close>

text \<open>
  A fix changes one field of the parameter record \<open>p\<close>, the one its label names: its record
  is \<open>p\<close> with that field set to the fix's own value of the field.
\<close>

definition one_field_changed :: "jsnum cyclo_params \<Rightarrow> geometric_fix \<Rightarrow> bool" where
  "one_field_changed p fix \<longleftrightarrow>
     label fix = ''Reduce Eccentricity''
       \<and> params fix = p\<lparr>eccentricity := eccentricity (params fix)\<rparr>
     \<or> label fix = ''Increase Radius''
       \<and> params fix = p\<lparr>pinCircleRadius := pinCircleRadius (params fix)\<rparr>
     \<or> label fix = ''Shrink Pins''
       \<and> params fix = p\<lparr>pinRadius := pinRadius (params fix)\<rparr>
     \<or> label fix = ''Shrink Center Hole''
       \<and> params fix = p\<lparr>holeRadius := holeRadius (params fix)\<rparr>"

text \<open>
  The values the eccentricity rule proposes: \<open>R / (2N)\<close> rounded to two decimals and
  \<open>E \<sqdot> 2N\<close> rounded to one.
\<close>

definition safe_eccentricity :: "real cyclo_params \<Rightarrow> jsnum" where
  "safe_eccentricity p =
     parseFloat_toFixed 2 (Fin (pinCircleRadius p / (2 * real (pinCount p))))"

definition safe_radius :: "real cyclo_params \<Rightarrow> jsnum" where
  "safe_radius p = parseFloat_toFixed 1 (Fin (eccentricity p * 2 * real (pinCount p)))"

subsection \<open>Reading the fixed notation back\<close>

text \<open>
  \<^verbatim>\<open>parseFloat\<close> on the texts that \<^verbatim>\<open>toFixed\<close> writes without the number-to-string
  conversion: the three special values, and an optional sign, digits, the point and digits
  (for \<open>f = 0\<close> no point and no fraction). It serves to check \<open>parseFloat_toFixed\<close>
  against \<open>toFixed\<close>; on other texts it is not meant to agree with the language.
\<close>

definition digit_value :: "char \<Rightarrow> nat" where
  "digit_value c = of_char c - 48"

definition digits_value :: "string \<Rightarrow> nat" where
  "digits_value s = foldl (\<lambda>n c. 10 * n + digit_value c) 0 s"

definition decimal_value :: "string \<Rightarrow> real" where
  "decimal_value s =
     (let whole = takeWhile (\<lambda>c. c \<noteq> CHR ''.'') s;
          fraction = drop (Suc (length whole)) s
      in real (digits_value whole) + real (digits_value fraction) / 10 ^ length fraction)"

definition parseFloat_fixed :: "string \<Rightarrow> jsnum" where
  "parseFloat_fixed s =
     (if s = ''NaN'' then NaN
      else if s = ''Infinity'' then PInf
      else if s = ''-Infinity'' then NInf
      else if take 1 s = ''-'' then Fin (- decimal_value (drop 1 s))
      else Fin (decimal_value s))"

subsection \<open>Parameter sets\<close>

text \<open>
  \<^verbatim>\<open>DEFAULT_PARAMS\<close> of \<^verbatim>\<open>src/constants.ts\<close>, and a parameter set within the data model
  (four pins on a radius of 16, eccentricity 4, three samples) whose locus has its cusps
  exactly at the samples, since \<open>E \<sqdot> N = R\<close>.
\<close>

definition default_params :: "real cyclo_params" where
  "default_params =
     \<lparr>pinCount = 12, pinCircleRadius = 50, pinRadius = 5, eccentricity = 1.5, holeRadius = 10,
      resolution = 720, tolerance = 0.15, holeTolerance = 0.1, outputPinCount = 6,
      outputPinRadius = 5, outputPinCircleRadius = 25, driveConfig = housingFixed\<rparr>"

definition cusp_params :: "real cyclo_params" where
  "cusp_params =
     \<lparr>pinCount = 4, pinCircleRadius = 16, pinRadius = 5, eccentricity = 4, holeRadius = 10,
      resolution = 3, tolerance = 0.15, holeTolerance = 0.1, outputPinCount = 6,
      outputPinRadius = 5, outputPinCircleRadius = 25, driveConfig = housingFixed\<rparr>"

text \<open>
  A circle of radius 2 (no eccentricity) cut with pins of radius 5, and a parameter set
  within the data model whose curvature denominator vanishes at every sample
  (\<open>E = R / N\<^sup>2\<close>, \<open>(N - 1) \<sqdot> t\<close> a multiple of \<open>2\<pi>\<close>).
\<close>

definition circle_params :: "real cyclo_params" where
  "circle_params =
     \<lparr>pinCount = 4, pinCircleRadius = 2, pinRadius = 5, eccentricity = 0, holeRadius = 1,
      resolution = 3, tolerance = 0.15, holeTolerance = 0.1, outputPinCount = 6,
      outputPinRadius = 5, outputPinCircleRadius = 25, driveConfig = housingFixed\<rparr>"

definition inflection_params :: "real cyclo_params" where
  "inflection_params =
     \<lparr>pinCount = 4, pinCircleRadius = 16, pinRadius = 5, eccentricity = 1, holeRadius = 10,
      resolution = 3, tolerance = 0.15, holeTolerance = 0.1, outputPinCount = 6,
      outputPinRadius = 5, outputPinCircleRadius = 25, driveConfig = housingFixed\<rparr>"

text \<open>
  Two more parameter sets within the data model: a thin disc, whose estimated inner radius
  \<open>10 - 4 \<sqdot> 1.25 - 4 = 1\<close> is below the hole radius plus 1.5 and below 2; and a small one, with
  \<open>R / (2N) = 0.006\<close>.
\<close>

definition thin_params :: "real cyclo_params" where
  "thin_params =
     \<lparr>pinCount = 4, pinCircleRadius = 10, pinRadius = 4, eccentricity = 1.25, holeRadius = 5,
      resolution = 720, tolerance = 0.15, holeTolerance = 0.1, outputPinCount = 6,
      outputPinRadius = 5, outputPinCircleRadius = 25, driveConfig = housingFixed\<rparr>"

definition small_params :: "real cyclo_params" where
  "small_params =
     \<lparr>pinCount = 10, pinCircleRadius = 0.12, pinRadius = 0.01, eccentricity = 1, holeRadius = 0,
      resolution = 720, tolerance = 0.15, holeTolerance = 0.1, outputPinCount = 6,
      outputPinRadius = 5, outputPinCircleRadius = 25, driveConfig = housingFixed\<rparr>"

section \<open>Finite parameter sets\<close>

lemma js_sel [simp]:
  "pinCount (js p) = pinCount p"
  "pinCircleRadius (js p) = Fin (pinCircleRadius p)"
  "pinRadius (js p) = Fin (pinRadius p)"
  "eccentricity (js p) = Fin (eccentricity p)"
  "holeRadius (js p) = Fin (holeRadius p)"
  "resolution (js p) = resolution p"
  "tolerance (js p) = Fin (tolerance p)"
  "holeTolerance (js p) = Fin (holeTolerance p)"
  "outputPinCount (js p) = outputPinCount p"
  "outputPinRadius (js p) = Fin (outputPinRadius p)"
  "outputPinCircleRadius (js p) = Fin (outputPinCircleRadius p)"
  "driveConfig (js p) = driveConfig p"
  by (simp_all add: js_def)

lemma Fin_minus [simp]: "Fin a - Fin b = Fin (a - b)"
  by (simp add: minus_jsnum_def)

lemma squares_not_neg [simp]: "\<not> a * a + b * b < (0::real)"
  by (simp add: not_less)

lemma sample_angle_js:
  "resolution p \<noteq> 0 \<Longrightarrow>
   Fin (real i) / Fin (real (resolution p)) * Fin 2 * Math_PI = Fin (sample_angle p i)"
  by (simp add: sample_angle_def Math_PI_def)

section \<open>The profile generator\<close>

text \<open>The loop pushes the samples it keeps, in the order of the indices.\<close>

lemma profile_loop_eq:
  "profile_loop p r i acc = acc @ List.map_filter (profile_sample p r) [i..<Suc (resolution p)]"
proof (induction p r i acc rule: profile_loop.induct)
  case (1 p r i points)
  show ?case
  proof (cases "i \<le> resolution p")
    case True
    then have "[i..<Suc (resolution p)] = i # [Suc i..<Suc (resolution p)]"
      by (simp add: upt_conv_Cons)
    with True 1 show ?thesis
      by (subst profile_loop.simps) (simp add: List.map_filter_simps split: option.splits)
  next
    case False
    then show ?thesis
      by (subst profile_loop.simps) (simp add: List.map_filter_simps)
  qed
qed

lemma profile_sample_js:
  "profile_sample (js p) (Fin rr) i =
     (if emitted p i then Some (offset_point p (rr - pinRadius p) i) else None)"
proof (cases "resolution p = 0")
  case True
  then show ?thesis
    by (simp add: profile_sample_def emitted_def Math_PI_def Let_def minus_jsnum_def)
next
  case False
  note t = sample_angle_js [OF False, of i]
  show ?thesis
  proof (cases "tangent_len p (sample_angle p i) < 1 / 10 ^ 6")
    case True
    then show ?thesis
      by (simp only: profile_sample_def Let_def js_sel t)
        (simp add: emitted_def tangent_len_def tangent_x_def tangent_y_def)
  next
    case len: False
    then have "tangent_len p (sample_angle p i) \<noteq> 0"
      by auto
    with len False show ?thesis
      by (simp only: profile_sample_def Let_def js_sel t)
        (simp add: emitted_def offset_point_def Let_def tangent_len_def tangent_x_def tangent_y_def
          locus_x_def locus_y_def)
  qed
qed

lemma generateCycloidProfile_js:
  "generateCycloidProfile (js p) (Some (Fin tol)) =
     map (offset_point p tol) (filter (emitted p) [0..<Suc (resolution p)])"
  by (simp add: generateCycloidProfile_def profile_loop_eq List.map_filter_def
      profile_sample_js o_def del: upt_Suc)

lemma displace_offset_point: "displace (Fin tol) (offset_point p 0 i) = offset_point p tol i"
  by (simp add: displace_def offset_point_def Let_def algebra_simps)

lemma normal_offset_point:
  "map nx (map (offset_point p tol) is) = map nx (map (offset_point p 0) is)"
  "map ny (map (offset_point p tol) is) = map ny (map (offset_point p 0) is)"
  by (simp_all add: offset_point_def Let_def)

lemma unit_vector:
  fixes a b l :: real
  assumes "0 < l" and "l * l = a * a + b * b"
  shows "(- b / l) * (- b / l) + (a / l) * (a / l) = 1"
proof -
  have "(- b / l) * (- b / l) + (a / l) * (a / l) = (a * a + b * b) / (l * l)"
    by (simp add: add_divide_distrib)
  also have "\<dots> = (l * l) / (l * l)"
    by (simp only: assms(2))
  also have "\<dots> = 1"
    using assms(1) by simp
  finally show ?thesis .
qed

lemma offset_point_unit_normal:
  assumes "emitted p i"
  shows "unit_normal (offset_point p tol i)"
proof -
  let ?t = "sample_angle p i"
  let ?s = "tangent_x p ?t * tangent_x p ?t + tangent_y p ?t * tangent_y p ?t"
  from assms have l: "0 < tangent_len p ?t"
    by (simp add: emitted_def not_less)
  then have "tangent_len p ?t * tangent_len p ?t = ?s"
    unfolding tangent_len_def by (simp add: not_less [symmetric])
  with l have "(- tangent_y p ?t / tangent_len p ?t) * (- tangent_y p ?t / tangent_len p ?t)
      + (tangent_x p ?t / tangent_len p ?t) * (tangent_x p ?t / tangent_len p ?t) = 1"
    by (rule unit_vector)
  then show ?thesis
    by (simp add: unit_normal_def offset_point_def Let_def)
qed

lemma profile_unit_normals:
  "list_all unit_normal (generateCycloidProfile (js p) (Some (Fin tol)))"
  unfolding generateCycloidProfile_js
  by (simp add: list_all_iff offset_point_unit_normal del: upt_Suc)


text \<open>The squared length of the tangent, and a lower bound of the length.\<close>

lemma tangent_sq_alg:
  fixes a b s c S C :: real
  shows "(- a * s + b * S) * (- a * s + b * S) + (a * c - b * C) * (a * c - b * C) =
           a * a * (c * c + s * s) + b * b * (C * C + S * S) - 2 * a * b * (C * c + S * s)"
  by (simp add: algebra_simps)

lemma tangent_sq:
  "tangent_x p t * tangent_x p t + tangent_y p t * tangent_y p t =
     pinCircleRadius p * pinCircleRadius p
     + eccentricity p * eccentricity p * real (pinCount p) * real (pinCount p)
     - 2 * pinCircleRadius p * eccentricity p * real (pinCount p)
         * cos ((real (pinCount p) - 1) * t)"
proof -
  have "(real (pinCount p) - 1) * t = real (pinCount p) * t - t"
    by (simp add: algebra_simps)
  then have c: "cos ((real (pinCount p) - 1) * t)
      = cos (real (pinCount p) * t) * cos t + sin (real (pinCount p) * t) * sin t"
    by (simp add: cos_diff)
  show ?thesis
    unfolding c tangent_x_def tangent_y_def
      tangent_sq_alg [of "pinCircleRadius p" "sin t" "eccentricity p * real (pinCount p)"
        "sin (real (pinCount p) * t)" "cos t" "cos (real (pinCount p) * t)"]
    by (simp only: sin_cos_squared_add3) (simp add: algebra_simps)
qed

lemma tangent_len_lower:
  assumes "0 \<le> pinCircleRadius p * eccentricity p"
  shows "\<bar>pinCircleRadius p - eccentricity p * real (pinCount p)\<bar> \<le> tangent_len p t"
proof -
  let ?R = "pinCircleRadius p" and ?EN = "eccentricity p * real (pinCount p)"
  let ?c = "cos ((real (pinCount p) - 1) * t)"
  have "?R * ?EN = (?R * eccentricity p) * real (pinCount p)"
    by simp
  then have "0 \<le> ?R * ?EN"
    using assms by (simp only: mult_nonneg_nonneg of_nat_0_le_iff)
  moreover have "1 - ?c \<ge> 0"
    by simp
  ultimately have "0 \<le> (?R * ?EN) * (1 - ?c)"
    by (rule mult_nonneg_nonneg)
  then have "(?R - ?EN)\<^sup>2 \<le> ?R * ?R + ?EN * ?EN - 2 * ?R * ?EN * ?c"
    by (simp add: power2_eq_square algebra_simps)
  also have "\<dots> = tangent_x p t * tangent_x p t + tangent_y p t * tangent_y p t"
    by (simp add: tangent_sq algebra_simps)
  finally have "sqrt ((?R - ?EN)\<^sup>2) \<le> tangent_len p t"
    unfolding tangent_len_def by (rule real_sqrt_le_mono)
  then show ?thesis
    by simp
qed

lemma generateCycloidProfile_js_opt:
  "generateCycloidProfile (js p) (map_option Fin ov) =
     map (offset_point p (effective_tolerance p ov)) (filter (emitted p) [0..<Suc (resolution p)])"
proof (cases ov)
  case None
  have "generateCycloidProfile (js p) None = generateCycloidProfile (js p) (Some (Fin (tolerance p)))"
    by (simp add: generateCycloidProfile_def)
  with None show ?thesis
    by (simp add: generateCycloidProfile_js effective_tolerance_def del: upt_Suc)
next
  case (Some v)
  then show ?thesis
    by (simp add: generateCycloidProfile_js effective_tolerance_def del: upt_Suc)
qed

lemma all_samples_emitted:
  assumes "resolution p \<noteq> 0" and "0 \<le> pinCircleRadius p * eccentricity p"
    and "1 / 10 ^ 6 \<le> \<bar>pinCircleRadius p - eccentricity p * real (pinCount p)\<bar>"
  shows "emitted p i"
  using assms(1,3) tangent_len_lower [OF assms(2), of "sample_angle p i"]
  by (simp add: emitted_def)



lemma cusp_not_emitted: "\<not> emitted cusp_params i"
proof -
  have "(real 4 - 1) * sample_angle cusp_params i = 2 * real i * pi"
    by (simp add: sample_angle_def cusp_params_def)
  then have "cos ((real (pinCount cusp_params) - 1) * sample_angle cusp_params i) = 1"
    by (simp add: cusp_params_def)
  then have "tangent_len cusp_params (sample_angle cusp_params i) = 0"
    unfolding tangent_len_def tangent_sq by (simp add: cusp_params_def)
  then show ?thesis
    by (simp add: emitted_def)
qed


section \<open>The exporter\<close>

lemma foldl_dxf_vertex:
  "foldl (dxf_vertex numToString) dxf pts = dxf @ concat (map (dxf_vertex_entity numToString) pts)"
  by (induction pts arbitrary: dxf) (simp_all add: dxf_vertex_def dxf_vertex_entity_def)

lemma generateDXF_entities:
  "generateDXF numToString pts holes p =
     ''0\<newline>SECTION\<newline>2\<newline>ENTITIES\<newline>''
     @ dxf_polyline numToString pts
     @ dxf_circle (toFixed numToString 4 (holeRadius p + holeTolerance p))
     @ ''0\<newline>ENDSEC\<newline>0\<newline>EOF\<newline>''"
  by (simp add: generateDXF_def Let_def foldl_dxf_vertex dxf_polyline_def dxf_circle_def)

lemma digit_char_is_digit: "d < 10 \<Longrightarrow> is_digit (digit_char d)"
  unfolding is_digit_def digit_char_def by (rule nth_mem) simp

lemma nat_digits_are_digits: "list_all is_digit (nat_digits n)"
proof (induction n rule: nat_digits.induct)
  case (1 n)
  show ?case
  proof (cases "n < 10")
    case True
    then show ?thesis
      by (subst nat_digits.simps) (simp add: digit_char_is_digit)
  next
    case False
    with 1 show ?thesis
      by (subst nat_digits.simps) (simp add: digit_char_is_digit)
  qed
qed

lemma fixed_notation_decimal_places:
  assumes "f \<noteq> 0"
  shows "decimal_places f (fixed_notation f b)"
proof -
  define m where "m = nat_digits (nat \<lfloor>b * 10 ^ f + 1 / 2\<rfloor>)"
  define z where "z = replicate (Suc f - length m) (CHR ''0'') @ m"
  have zero: "is_digit (CHR ''0'')"
    by (simp add: is_digit_def)
  have z: "list_all is_digit z"
    using nat_digits_are_digits [of "nat \<lfloor>b * 10 ^ f + 1 / 2\<rfloor>"] zero
    by (auto simp: z_def m_def list_all_iff)
  have len: "Suc f \<le> length z"
    by (simp add: z_def)
  have r: "fixed_notation f b = take (length z - f) z @ ''.'' @ drop (length z - f) z"
    using assms by (simp add: fixed_notation_def Let_def m_def z_def)
  have l: "length (fixed_notation f b) = Suc (length z)"
    unfolding r using len by simp
  have pre: "list_all is_digit (take k z)" and post: "list_all is_digit (drop k z)" for k
    using z by (auto simp: list_all_iff dest: in_set_takeD in_set_dropD)
  have a: "Suc (length z) - Suc f = length z - f"
    by simp
  have b: "Suc (length z) - f = Suc (length z - f)"
    using len by simp
  show ?thesis
    unfolding decimal_places_def l a b
    unfolding r using len pre post
    by (simp add: nth_append)
qed

lemma nat_digits_eval:
  "nat_digits (numeral k) =
     (if numeral k < (10::nat) then [digit_char (numeral k)]
      else nat_digits (numeral k div 10) @ [digit_char (numeral k mod 10)])"
  "nat_digits 0 = ''0''"
  "nat_digits (Suc 0) = ''1''"
  by (simp_all add: nat_digits.simps [of "numeral k"] nat_digits.simps [of 0]
      nat_digits.simps [of "Suc 0"] digit_char_def)

lemma replicate_numeral: "replicate (numeral k) a = a # replicate (pred_numeral k) a"
  by (simp add: numeral_eq_Suc)

lemmas toFixed_eval = fixed_notation_def Let_def nat_digits_eval digit_char_def replicate_numeral

lemma bore_radius_text: "toFixed numToString 4 (Fin 10 + Fin (1 / 10)) = ''10.1000''"
  by (simp add: toFixed_eval)



text \<open>
  Reading the fixed notation back gives the rounded value: \<open>parseFloat_toFixed\<close> is
  \<^verbatim>\<open>parseFloat\<close> after \<^verbatim>\<open>toFixed\<close> below \<open>10\<^sup>2\<^sup>1\<close>.
\<close>

lemma digits_value_append:
  "digits_value (as @ bs) = digits_value as * 10 ^ length bs + digits_value bs"
proof (induction bs rule: rev_induct)
  case Nil
  then show ?case by (simp add: digits_value_def)
next
  case (snoc b bs)
  have "digits_value (as @ bs @ [b]) = 10 * digits_value (as @ bs) + digit_value b"
    by (simp add: digits_value_def)
  also have "\<dots> = digits_value as * 10 ^ length (bs @ [b])
      + (10 * digits_value bs + digit_value b)"
    by (simp add: snoc.IH algebra_simps)
  also have "10 * digits_value bs + digit_value b = digits_value (bs @ [b])"
    by (simp add: digits_value_def)
  finally show ?case
    by simp
qed

lemma digit_value_digit_char: "d < 10 \<Longrightarrow> digit_value (digit_char d) = d"
proof -
  assume "d < 10"
  then have "d \<in> {0, 1, 2, 3, 4, 5, 6, 7, 8, 9}"
    by auto
  then show ?thesis
    by (auto simp: digit_value_def digit_char_def)
qed

lemma digits_value_nat_digits: "digits_value (nat_digits n) = n"
proof (induction n rule: nat_digits.induct)
  case (1 n)
  show ?case
  proof (cases "n < 10")
    case True
    then show ?thesis
      by (subst nat_digits.simps) (simp add: digits_value_def digit_value_digit_char)
  next
    case False
    then have "digits_value (nat_digits n)
        = digits_value (nat_digits (n div 10)) * 10 + digit_value (digit_char (n mod 10))"
      by (subst nat_digits.simps) (simp add: digits_value_append, simp add: digits_value_def)
    with False 1 show ?thesis
      by (simp add: digit_value_digit_char)
  qed
qed

lemma digits_value_zeros: "digits_value (replicate k (CHR ''0'') @ ds) = digits_value ds"
proof -
  have "digits_value (replicate k (CHR ''0'')) = 0"
  proof (induction k)
    case 0
    then show ?case by (simp add: digits_value_def)
  next
    case (Suc k)
    have "replicate (Suc k) (CHR ''0'') = replicate k (CHR ''0'') @ ''0''"
      by (simp add: replicate_append_same)
    moreover have "digits_value ''0'' = 0"
      by (simp add: digits_value_def digit_value_def)
    ultimately show ?case
      using Suc by (simp only: digits_value_append)
  qed
  then show ?thesis
    by (simp add: digits_value_append)
qed

lemma decimal_value_fixed_notation:
  assumes "f \<noteq> 0"
  shows "decimal_value (fixed_notation f b) = real (nat \<lfloor>b * 10 ^ f + 1 / 2\<rfloor>) / 10 ^ f"
proof -
  define n where "n = nat \<lfloor>b * 10 ^ f + 1 / 2\<rfloor>"
  define z where "z = replicate (Suc f - length (nat_digits n)) (CHR ''0'') @ nat_digits n"
  define whole where "whole = take (length z - f) z"
  define fraction where "fraction = drop (length z - f) z"
  have len: "Suc f \<le> length z"
    by (simp add: z_def)
  have r: "fixed_notation f b = whole @ ''.'' @ fraction"
    using assms unfolding fixed_notation_def Let_def whole_def fraction_def z_def n_def
    by simp
  have zv: "digits_value z = n"
    unfolding z_def by (simp only: digits_value_zeros digits_value_nat_digits)
  have lf: "length fraction = f"
    unfolding fraction_def using len by simp
  have zero: "is_digit (CHR ''0'')"
    by (simp add: is_digit_def)
  have "list_all is_digit z"
    unfolding z_def using nat_digits_are_digits [of n] zero
    by (auto simp: list_all_iff)
  then have "list_all is_digit whole"
    unfolding whole_def by (auto simp: list_all_iff dest: in_set_takeD)
  moreover have "\<not> is_digit (CHR ''.'')"
    by (simp add: is_digit_def)
  ultimately have "CHR ''.'' \<notin> set whole"
    by (auto simp: list_all_iff)
  then have tw: "takeWhile (\<lambda>c. c \<noteq> CHR ''.'') (whole @ ''.'' @ fraction) = whole"
    by (subst takeWhile_append2) auto
  have "z = whole @ fraction"
    unfolding whole_def fraction_def by simp
  then have "n = digits_value whole * 10 ^ f + digits_value fraction"
    using zv lf by (simp only: digits_value_append)
  then have "real n = real (digits_value whole) * 10 ^ f + real (digits_value fraction)"
    by (metis of_nat_add of_nat_mult of_nat_power of_nat_numeral)
  then have "real n / 10 ^ f
      = real (digits_value whole) + real (digits_value fraction) / 10 ^ f"
    by (simp add: add_divide_distrib)
  moreover have "decimal_value (whole @ ''.'' @ fraction)
      = real (digits_value whole) + real (digits_value fraction) / 10 ^ length fraction"
    unfolding decimal_value_def Let_def tw by simp
  ultimately show ?thesis
    unfolding r n_def [symmetric] by (simp only: lf)
qed

lemma digit_head:
  assumes "s \<noteq> []" and "is_digit (hd s)"
  shows "s \<noteq> ''NaN''" and "s \<noteq> ''Infinity''" and "take 1 s \<noteq> ''-''"
    and "s \<noteq> ''-Infinity''"
  using assms by (cases s; auto simp: is_digit_def)+

lemma parseFloat_fixed_toFixed:
  assumes "f \<noteq> 0" and "\<bar>a\<bar> < 10 ^ 21"
  shows "parseFloat_fixed (toFixed numToString f (Fin a)) = parseFloat_toFixed f (Fin a)"
proof -
  let ?s = "fixed_notation f \<bar>a\<bar>"
  have d: "decimal_places f ?s"
    using assms(1) by (rule fixed_notation_decimal_places)
  then have l: "Suc f < length ?s"
    and w: "list_all is_digit (take (length ?s - Suc f) ?s)"
    by (simp_all add: decimal_places_def)
  from l have ne: "?s \<noteq> []"
    by auto
  from l have "0 < length ?s - Suc f"
    by simp
  then have "hd ?s \<in> set (take (length ?s - Suc f) ?s)"
    using ne by (cases ?s) (simp_all add: take_Cons')
  with w have h: "is_digit (hd ?s)"
    by (simp add: list_all_iff)
  note n = digit_head [OF ne h]
  show ?thesis
  proof (cases "a < 0")
    case True
    with assms n(2) show ?thesis
      by (simp add: parseFloat_fixed_def Let_def decimal_value_fixed_notation)
  next
    case False
    with assms n show ?thesis
      by (simp add: parseFloat_fixed_def Let_def decimal_value_fixed_notation)
  qed
qed

lemma parseFloat_fixed_special:
  "parseFloat_fixed (toFixed numToString f NaN) = parseFloat_toFixed f NaN"
  "parseFloat_fixed (toFixed numToString f PInf) = parseFloat_toFixed f PInf"
  "parseFloat_fixed (toFixed numToString f NInf) = parseFloat_toFixed f NInf"
  by (simp_all add: parseFloat_fixed_def)

text \<open>
  C9. The exported document does not depend on the \<^verbatim>\<open>holes\<close> argument: whatever hole points
  are passed, the text is the same, so no output-pin hole geometry is ever part of it.
\<close>

theorem generateDXF_ignores_holes:
  "generateDXF numToString pts h1 p = generateDXF numToString pts h2 p"
  by (simp add: generateDXF_def)

section \<open>The physics analyser\<close>

text \<open>The loop is a fold of its body over the sample indices.\<close>

lemma physics_loop_foldl:
  "physics_loop q i s = foldl (\<lambda>s i. physics_step q i s) s [i..<Suc (resolution q)]"
proof (induction q i s rule: physics_loop.induct)
  case (1 q i s)
  show ?case
  proof (cases "i \<le> resolution q")
    case True
    then have "[i..<Suc (resolution q)] = i # [Suc i..<Suc (resolution q)]"
      by (simp add: upt_conv_Cons)
    with True 1 show ?thesis
      by (subst physics_loop.simps) simp
  next
    case False
    then show ?thesis
      by (subst physics_loop.simps) simp
  qed
qed

lemma term1_not_neg [simp]:
  "\<not> pinCircleRadius p * pinCircleRadius p
     + eccentricity p * eccentricity p * real (pinCount p) * real (pinCount p)
     < 2 * pinCircleRadius p * eccentricity p * real (pinCount p)
         * cos ((real (pinCount p) - 1) * t)"
  for p :: "real cyclo_params"
  using tangent_sq [of p t] squares_not_neg [of "tangent_x p t" "tangent_y p t"]
  by simp

lemma physics_step_min:
  "minCurvatureRadius (physics_step (js p) i s) =
     (if physics_emitted p i then smaller_magnitude (minCurvatureRadius s) (surface_curvature p i)
      else minCurvatureRadius s)"
proof (cases "resolution p = 0")
  case True
  then show ?thesis
    by (simp add: physics_step_def physics_emitted_def surface_curvature_def smaller_magnitude_def
        Math_PI_def Let_def minus_jsnum_def)
next
  case False
  note t = sample_angle_js [OF False, of i]
  show ?thesis
  proof (cases "tangent_len p (sample_angle p i) < 1 / 10 ^ 6")
    case True
    then show ?thesis
      by (simp only: physics_step_def Let_def js_sel t)
        (simp add: physics_emitted_def tangent_len_def tangent_x_def tangent_y_def False)
  next
    case len: False
    with False show ?thesis
      by (simp only: physics_step_def Let_def js_sel t)
        (simp add: physics_emitted_def surface_curvature_def smaller_magnitude_def
          rho_numerator_def rho_denominator_def tangent_len_def tangent_x_def tangent_y_def)
  qed
qed

lemma physics_step_curvature:
  "map curvatureRadius (points (physics_step (js p) i s)) =
     map curvatureRadius (points s)
     @ (if physics_emitted p i then [Some (surface_curvature p i)] else [])"
proof (cases "resolution p = 0")
  case True
  then show ?thesis
    by (simp add: physics_step_def physics_emitted_def surface_curvature_def
        Math_PI_def Let_def minus_jsnum_def)
next
  case False
  note t = sample_angle_js [OF False, of i]
  show ?thesis
  proof (cases "tangent_len p (sample_angle p i) < 1 / 10 ^ 6")
    case True
    then show ?thesis
      by (simp only: physics_step_def Let_def js_sel t)
        (simp add: physics_emitted_def tangent_len_def tangent_x_def tangent_y_def False)
  next
    case len: False
    with False show ?thesis
      by (simp only: physics_step_def Let_def js_sel t)
        (simp add: physics_emitted_def surface_curvature_def
          rho_numerator_def rho_denominator_def tangent_len_def tangent_x_def tangent_y_def)
  qed
qed

lemma physics_fold_min:
  "minCurvatureRadius (foldl (\<lambda>s i. physics_step (js p) i s) s is) =
     foldl smaller_magnitude (minCurvatureRadius s)
       (map (surface_curvature p) (filter (physics_emitted p) is))"
  by (induction "is" arbitrary: s) (simp_all add: physics_step_min)

lemma physics_fold_curvature:
  "map curvatureRadius (points (foldl (\<lambda>s i. physics_step (js p) i s) s is)) =
     map curvatureRadius (points s)
     @ map Some (map (surface_curvature p) (filter (physics_emitted p) is))"
  by (induction "is" arbitrary: s) (simp_all add: physics_step_curvature)

lemma calculatePhysicsMetrics_min:
  "minCurvatureRadius (calculatePhysicsMetrics (js p)) =
     foldl smaller_magnitude (Fin MAX_VALUE) (emitted_curvatures p)"
  by (simp add: calculatePhysicsMetrics_def physics_loop_foldl physics_fold_min
      emitted_curvatures_def del: upt_Suc)

lemma calculatePhysicsMetrics_curvature:
  "map curvatureRadius (points (calculatePhysicsMetrics (js p))) =
     map Some (emitted_curvatures p)"
  by (simp add: calculatePhysicsMetrics_def physics_loop_foldl physics_fold_curvature
      emitted_curvatures_def del: upt_Suc)

lemma jsnum_less_trans: "a < b \<Longrightarrow> b < c \<Longrightarrow> a < c" for a b c :: jsnum
  by (cases a; cases b; cases c) simp_all

lemma jsnum_le_less_trans: "a \<le> b \<Longrightarrow> b < c \<Longrightarrow> a < c" for a b c :: jsnum
  by (cases a; cases b; cases c) simp_all

lemma jsnum_less_irrefl [simp]: "\<not> a < a" for a :: jsnum
  by (cases a) simp_all

lemma smallest_magnitude_selected:
  "(\<forall>j<length cs. \<not> \<bar>cs ! j\<bar> < \<bar>foldl smaller_magnitude m0 cs\<bar>)
   \<and> (foldl smaller_magnitude m0 cs = m0
      \<or> (\<exists>k<length cs. foldl smaller_magnitude m0 cs = cs ! k \<and> \<bar>cs ! k\<bar> < \<bar>m0\<bar>
            \<and> (\<forall>j<k. \<not> \<bar>cs ! j\<bar> \<le> \<bar>cs ! k\<bar>)))"
proof (induction cs rule: rev_induct)
  case Nil
  then show ?case by simp
next
  case (snoc c cs)
  let ?m = "foldl smaller_magnitude m0 cs"
  from snoc have old: "\<And>j. j < length cs \<Longrightarrow> \<not> \<bar>cs ! j\<bar> < \<bar>?m\<bar>"
    and sel: "?m = m0 \<or> (\<exists>k<length cs. ?m = cs ! k \<and> \<bar>cs ! k\<bar> < \<bar>m0\<bar>
            \<and> (\<forall>j<k. \<not> \<bar>cs ! j\<bar> \<le> \<bar>cs ! k\<bar>))"
    by blast+
  show ?case
  proof (cases "\<bar>c\<bar> < \<bar>?m\<bar>")
    case True
    then have new: "foldl smaller_magnitude m0 (cs @ [c]) = c"
      by (simp add: smaller_magnitude_def)
    have a: "\<not> \<bar>(cs @ [c]) ! j\<bar> < \<bar>c\<bar>" if "j < length (cs @ [c])" for j
    proof (cases "j < length cs")
      case True
      with old [of j] \<open>\<bar>c\<bar> < \<bar>?m\<bar>\<close> show ?thesis
        by (auto simp: nth_append dest: jsnum_less_trans)
    next
      case False
      with that have "j = length cs" by simp
      then show ?thesis by simp
    qed
    have b: "\<bar>c\<bar> < \<bar>m0\<bar>"
      using sel True by (auto dest: jsnum_less_trans)
    have c: "\<not> \<bar>(cs @ [c]) ! j\<bar> \<le> \<bar>c\<bar>" if "j < length cs" for j
      using old [OF that] True that by (auto simp: nth_append dest: jsnum_le_less_trans)
    have "\<exists>k<length (cs @ [c]). c = (cs @ [c]) ! k \<and> \<bar>(cs @ [c]) ! k\<bar> < \<bar>m0\<bar>
            \<and> (\<forall>j<k. \<not> \<bar>(cs @ [c]) ! j\<bar> \<le> \<bar>(cs @ [c]) ! k\<bar>)"
      using b c by (intro exI [of _ "length cs"]) simp
    with a show ?thesis
      unfolding new by blast
  next
    case False
    then have keep: "foldl smaller_magnitude m0 (cs @ [c]) = ?m"
      by (simp add: smaller_magnitude_def)
    have a: "\<not> \<bar>(cs @ [c]) ! j\<bar> < \<bar>?m\<bar>" if "j < length (cs @ [c])" for j
    proof (cases "j < length cs")
      case True
      with old [of j] show ?thesis by (simp add: nth_append)
    next
      case nl: False
      with that have "j = length cs" by simp
      with False show ?thesis by simp
    qed
    from sel have "?m = m0 \<or> (\<exists>k<length (cs @ [c]). ?m = (cs @ [c]) ! k
            \<and> \<bar>(cs @ [c]) ! k\<bar> < \<bar>m0\<bar>
            \<and> (\<forall>j<k. \<not> \<bar>(cs @ [c]) ! j\<bar> \<le> \<bar>(cs @ [c]) ! k\<bar>))"
    proof
      assume "?m = m0"
      then show ?thesis ..
    next
      assume "\<exists>k<length cs. ?m = cs ! k \<and> \<bar>cs ! k\<bar> < \<bar>m0\<bar>
            \<and> (\<forall>j<k. \<not> \<bar>cs ! j\<bar> \<le> \<bar>cs ! k\<bar>)"
      then obtain k where k: "k < length cs" "?m = cs ! k" "\<bar>cs ! k\<bar> < \<bar>m0\<bar>"
        "\<forall>j<k. \<not> \<bar>cs ! j\<bar> \<le> \<bar>cs ! k\<bar>"
        by blast
      then have "k < length (cs @ [c]) \<and> ?m = (cs @ [c]) ! k \<and> \<bar>(cs @ [c]) ! k\<bar> < \<bar>m0\<bar>
            \<and> (\<forall>j<k. \<not> \<bar>(cs @ [c]) ! j\<bar> \<le> \<bar>(cs @ [c]) ! k\<bar>)"
        by (simp add: nth_append)
      then show ?thesis by blast
    qed
    with a show ?thesis
      unfolding keep by blast
  qed
qed

lemma MAX_VALUE_pos: "0 < MAX_VALUE"
proof -
  have "(2::real) ^ 971 < 2 ^ 1024"
    by (rule power_strict_increasing) simp_all
  then show ?thesis
    by (simp add: MAX_VALUE_def)
qed


lemma MAX_VALUE_large: "2 ^ 971 \<le> MAX_VALUE"
proof -
  have "(2::real) * 2 ^ 971 = 2 ^ 972"
    by simp
  moreover have "(2::real) ^ 972 \<le> 2 ^ 1024"
    by (rule power_increasing) simp_all
  ultimately show ?thesis
    by (simp add: MAX_VALUE_def)
qed

lemma four_powr: "(4::real) powr (3 / 2) = 8"
proof -
  have "(4::real) powr (3 / 2) = sqrt (4 powr 3)"
    by (rule powr_half_sqrt_powr) simp
  also have "(4::real) powr 3 = 8\<^sup>2"
    by simp
  finally show ?thesis
    by (simp del: power2_eq_iff)
qed

lemma upt_0_4: "[0..<4] = [0, 1, 2, 3::nat]"
  by (simp add: numeral_eq_Suc upt_rec)

lemma circle_curvatures:
  "emitted_curvatures circle_params = [Fin (- 3), Fin (- 3), Fin (- 3), Fin (- 3)]"
proof -
  have "physics_emitted circle_params i" for i
    using tangent_len_lower [of circle_params "sample_angle circle_params i"]
    by (simp add: physics_emitted_def circle_params_def)
  then have "filter (physics_emitted circle_params) [0..<4] = [0..<4]"
    by simp
  moreover have "Suc (resolution circle_params) = 4"
    by (simp add: circle_params_def)
  moreover have "surface_curvature circle_params i = Fin (- 3)" for i
    by (simp add: surface_curvature_def rho_numerator_def rho_denominator_def circle_params_def
        four_powr)
  ultimately show ?thesis
    unfolding emitted_curvatures_def by (simp only: upt_0_4 list.map)
qed

lemma three_less_MAX: "3 < MAX_VALUE"
proof -
  have "(2::real) ^ 2 \<le> 2 ^ 971"
    by (rule power_increasing) simp_all
  then have "(3::real) < 2 ^ 971"
    by (simp only: power2_eq_square)
  then show "3 < MAX_VALUE"
    using MAX_VALUE_large by (rule less_le_trans)
qed


lemma inflection_curvatures:
  "emitted_curvatures inflection_params = [PInf, PInf, PInf, PInf]"
proof -
  have "physics_emitted inflection_params i" for i
    using tangent_len_lower [of inflection_params "sample_angle inflection_params i"]
    by (simp add: physics_emitted_def inflection_params_def)
  then have "filter (physics_emitted inflection_params) [0..<4] = [0..<4]"
    by simp
  moreover have "Suc (resolution inflection_params) = 4"
    by (simp add: inflection_params_def)
  moreover have "surface_curvature inflection_params i = PInf" for i
  proof -
    have "(real 4 - 1) * sample_angle inflection_params i = 2 * real i * pi"
      by (simp add: sample_angle_def inflection_params_def)
    then have "cos ((real (pinCount inflection_params) - 1) * sample_angle inflection_params i) = 1"
      by (simp add: inflection_params_def)
    then show ?thesis
      by (simp add: surface_curvature_def rho_numerator_def rho_denominator_def minus_jsnum_def)
        (simp add: inflection_params_def)
  qed
  ultimately show ?thesis
    unfolding emitted_curvatures_def by (simp only: upt_0_4 list.map)
qed


text \<open>The running maximum of the pressure angle.\<close>

lemma jsnum_NaN_less [simp]: "\<not> a < NaN" "\<not> NaN < a"
  by (cases a; simp)+

lemma physics_step_max:
  assumes R: "pinCircleRadius p \<noteq> 0"
  shows "maxPressureAngle (physics_step (js p) i s) =
     (if emitted p i then larger (maxPressureAngle s) (Fin (pressure_angle_deg p (sample_angle p i)))
      else maxPressureAngle s)"
proof (cases "resolution p = 0")
  case True
  then show ?thesis
    by (simp add: physics_step_def emitted_def Math_PI_def Let_def minus_jsnum_def)
next
  case False
  note t = sample_angle_js [OF False, of i]
  show ?thesis
  proof (cases "tangent_len p (sample_angle p i) < 1 / 10 ^ 6")
    case True
    then show ?thesis
      by (simp only: physics_step_def Let_def js_sel t)
        (simp add: emitted_def tangent_len_def tangent_x_def tangent_y_def False)
  next
    case len: False
    with False R show ?thesis
      by (simp only: physics_step_def Let_def js_sel t)
        (simp add: emitted_def larger_def pressure_angle_deg_def Let_def Math_PI_def
          tangent_len_def tangent_x_def tangent_y_def)
  qed
qed

lemma physics_fold_max:
  assumes "pinCircleRadius p \<noteq> 0"
  shows "maxPressureAngle (foldl (\<lambda>s i. physics_step (js p) i s) s is) =
     foldl larger (maxPressureAngle s)
       (map (\<lambda>i. Fin (pressure_angle_deg p (sample_angle p i))) (filter (emitted p) is))"
  by (induction "is" arbitrary: s) (simp_all add: physics_step_max [OF assms])

lemma foldl_larger_Fin: "foldl larger (Fin a) (map Fin bs) = Fin (foldl max a bs)"
  by (induction bs arbitrary: a) (simp_all add: larger_def max_def)

lemma calculatePhysicsMetrics_max:
  assumes "pinCircleRadius p \<noteq> 0"
  shows "maxPressureAngle (calculatePhysicsMetrics (js p)) =
     Fin (foldl max 0 (emitted_pressure_angles p))"
proof -
  have "map (\<lambda>i. Fin (pressure_angle_deg p (sample_angle p i))) is
      = map Fin (map (\<lambda>i. pressure_angle_deg p (sample_angle p i)) is)" for "is"
    by simp
  then show ?thesis
    by (simp only: calculatePhysicsMetrics_def physics_loop_foldl physics_fold_max [OF assms]
        emitted_pressure_angles_def foldl_larger_Fin physics_metrics.simps js_sel)
qed

lemma foldl_max_mono:
  "list_all2 (\<le>) as bs \<Longrightarrow> a \<le> b \<Longrightarrow> foldl max a as \<le> foldl max b bs"
  for a b :: real
proof (induction arbitrary: a b rule: list_all2_induct)
  case Nil
  then show ?case by simp
next
  case (Cons u as v bs)
  from Cons.hyps(1) Cons.prems have "max a u \<le> max b v"
    by (simp add: max_def)
  then show ?case
    using Cons.IH by simp
qed

lemma foldl_max_init: "b \<le> foldl max b cs" for b :: real
proof (induction cs arbitrary: b)
  case Nil
  then show ?case by simp
next
  case (Cons c cs)
  have "b \<le> max b c" by simp
  also have "\<dots> \<le> foldl max (max b c) cs" by (rule Cons.IH)
  finally show ?case by simp
qed

lemma foldl_max_ge: "u \<in> set as \<Longrightarrow> u \<le> foldl max a as" for a :: real
proof (induction as arbitrary: a)
  case Nil
  then show ?case by simp
next
  case (Cons v as)
  show ?case
  proof (cases "u = v")
    case True
    have "v \<le> max a v" by simp
    also have "\<dots> \<le> foldl max (max a v) as" by (rule foldl_max_init)
    finally show ?thesis using True by simp
  next
    case False
    with Cons show ?thesis by simp
  qed
qed

lemma pressure_angle_mono:
  fixes p :: "real cyclo_params"
  assumes R: "0 < pinCircleRadius p" and E: "0 \<le> E1" "E1 \<le> E2"
    and K: "E2 * real (pinCount p) < pinCircleRadius p"
  shows "pressure_angle_deg (p\<lparr>eccentricity := E1\<rparr>) t
       \<le> pressure_angle_deg (p\<lparr>eccentricity := E2\<rparr>) t"
proof -
  define K1 where "K1 = E1 * real (pinCount p) / pinCircleRadius p"
  define K2 where "K2 = E2 * real (pinCount p) / pinCircleRadius p"
  define s where "s = sin (real (pinCount p) * t)"
  define c where "c = cos (real (pinCount p) * t)"
  have K1: "0 \<le> K1" and K12: "K1 \<le> K2" and K2: "K2 < 1"
    using R E K by (simp_all add: K1_def K2_def divide_right_mono mult_right_mono)
  have c: "\<bar>c\<bar> \<le> 1"
    by (simp add: c_def)
  have pos: "0 < 1 - k * c" if "0 \<le> k" "k < 1" for k
  proof -
    have "k * c \<le> \<bar>k * c\<bar>" by simp
    also have "\<dots> = k * \<bar>c\<bar>" using that by (simp add: abs_mult)
    also have "\<dots> \<le> k * 1" using that c by (intro mult_left_mono) simp_all
    finally show ?thesis using that by simp
  qed
  have K1': "K1 < 1" and K2': "0 \<le> K2"
    using K1 K12 K2 by linarith+
  have a1: "0 < 1 - K1 * c"
    using K1 K1' by (rule pos)
  have a2: "0 < 1 - K2 * c"
    using K2' K2 by (rule pos)
  have "K1 * \<bar>s\<bar> \<le> K2 * \<bar>s\<bar>"
    using K12 by (intro mult_right_mono) simp_all
  then have "K1 * \<bar>s\<bar> * (1 - K2 * c) \<le> K2 * \<bar>s\<bar> * (1 - K1 * c)"
    by (simp add: algebra_simps)
  then have "K1 * \<bar>s\<bar> / (1 - K1 * c) \<le> K2 * \<bar>s\<bar> / (1 - K2 * c)"
    using a1 a2 by (simp add: field_simps)
  then have "arctan (K1 * \<bar>s\<bar> / (1 - K1 * c)) \<le> arctan (K2 * \<bar>s\<bar> / (1 - K2 * c))"
    by (simp add: arctan_le_iff)
  moreover have "atan2_real \<bar>k * s\<bar> \<bar>1 - k * c\<bar> = arctan (k * \<bar>s\<bar> / (1 - k * c))"
    if "0 \<le> k" "k < 1" for k
    using pos [OF that] that by (simp add: atan2_real_def abs_mult)
  ultimately have "atan2_real \<bar>K1 * s\<bar> \<bar>1 - K1 * c\<bar> \<le> atan2_real \<bar>K2 * s\<bar> \<bar>1 - K2 * c\<bar>"
    using K1 K1' K2' K2 by simp
  then have "atan2_real \<bar>K1 * s\<bar> \<bar>1 - K1 * c\<bar> * (180 / pi)
      \<le> atan2_real \<bar>K2 * s\<bar> \<bar>1 - K2 * c\<bar> * (180 / pi)"
    by (intro mult_right_mono) simp_all
  then show ?thesis
    by (simp add: pressure_angle_deg_def Let_def K1_def K2_def s_def c_def)
qed

lemma sample_angle_eccentricity [simp]:
  "sample_angle (p\<lparr>eccentricity := e\<rparr>) i = sample_angle p i"
  by (simp add: sample_angle_def)

lemma emitted_below_pin_circle:
  fixes p :: "real cyclo_params"
  assumes "0 < pinCircleRadius p" "0 \<le> e"
    and "e * real (pinCount p) \<le> pinCircleRadius p - 1 / 10 ^ 6"
  shows "emitted (p\<lparr>eccentricity := e\<rparr>) i \<longleftrightarrow> resolution p \<noteq> 0"
proof (cases "resolution p = 0")
  case True
  then show ?thesis
    by (simp add: emitted_def)
next
  case False
  with assms have "emitted (p\<lparr>eccentricity := e\<rparr>) i"
    by (intro all_samples_emitted) simp_all
  with False show ?thesis
    by simp
qed



lemma sin_8pi_3: "sin (8 * pi / 3) \<noteq> 0"
proof
  assume "sin (8 * pi / 3) = 0"
  then obtain i :: int where "8 * pi / 3 = of_int i * pi"
    by (auto simp: sin_zero_iff_int2)
  then have "(8::real) = of_int (3 * i)"
    by simp
  then have "(8::int) = 3 * i"
    by (metis of_int_eq_iff of_int_numeral)
  then show False
    by presburger
qed

lemma inflection_pressure_angle_pos:
  "0 < pressure_angle_deg inflection_params (sample_angle inflection_params 1)"
proof -
  have t: "real (pinCount inflection_params) * sample_angle inflection_params 1 = 8 * pi / 3"
    by (simp add: sample_angle_def inflection_params_def)
  have K: "eccentricity inflection_params * real (pinCount inflection_params)
           / pinCircleRadius inflection_params = 1 / 4"
    by (simp add: inflection_params_def)
  have "\<bar>cos (8 * pi / 3)\<bar> \<le> 1"
    by simp
  then have den: "0 < \<bar>1 - 1 / 4 * cos (8 * pi / 3)\<bar>"
    by linarith
  have num: "0 < \<bar>1 / 4 * sin (8 * pi / 3)\<bar>"
    using sin_8pi_3 by simp
  from den num have "0 < atan2_real \<bar>1 / 4 * sin (8 * pi / 3)\<bar> \<bar>1 - 1 / 4 * cos (8 * pi / 3)\<bar>"
    by (simp add: atan2_real_def del: times_divide_eq_left)
  then show ?thesis
    unfolding pressure_angle_deg_def Let_def t K by simp
qed


section \<open>The path assembler\<close>

lemma holes_loop_eq:
  "holes_loop numToString holeR holeDist numHoles i pathD =
     pathD @ concat (map (hole_path numToString holeR holeDist numHoles) [i..<numHoles])"
proof (induction numToString holeR holeDist numHoles i pathD rule: holes_loop.induct)
  case (1 numToString holeR holeDist numHoles i pathD)
  show ?case
  proof (cases "i < numHoles")
    case True
    then have "[i..<numHoles] = i # [Suc i..<numHoles]"
      by (simp add: upt_conv_Cons)
    with True 1 show ?thesis
      by (subst holes_loop.simps) simp
  next
    case False
    then show ?thesis
      by (subst holes_loop.simps) simp
  qed
qed

lemma hole_path_js:
  assumes "i < outputPinCount p"
  shows "hole_path numToString
           (Fin (outputPinRadius p + eccentricity p + holeTolerance p))
           (Fin (outputPinCircleRadius p)) (outputPinCount p) i
         = hole_cutout numToString p i"
proof -
  from assms have n: "real (outputPinCount p) \<noteq> 0"
    by simp
  then have "Fin (real i) / Fin (real (outputPinCount p)) * Fin 2 * Math_PI = Fin (hole_angle p i)"
    by (simp add: hole_angle_def Math_PI_def)
  then show ?thesis
    by (simp add: hole_path_def hole_cutout_def svg_cutout_def Let_def)
qed


section \<open>The quality advisor\<close>

text \<open>The filter for unique fixes keeps a list whose labels are distinct.\<close>

lemma findIndex_first:
  "i < length as \<Longrightarrow> P (as ! i) \<Longrightarrow> (\<And>j. j < i \<Longrightarrow> \<not> P (as ! j)) \<Longrightarrow> findIndex P as = int i"
proof (induction as arbitrary: i)
  case Nil
  then show ?case by simp
next
  case (Cons a as)
  show ?case
  proof (cases i)
    case 0
    with Cons.prems show ?thesis by simp
  next
    case (Suc k)
    with Cons.prems(3) [of 0] have a: "\<not> P a"
      by simp
    have "findIndex P as = int k"
    proof (rule Cons.IH)
      show "k < length as" using Cons.prems(1) Suc by simp
      show "P (as ! k)" using Cons.prems(2) Suc by simp
      show "\<not> P (as ! j)" if "j < k" for j
        using Cons.prems(3) [of "Suc j"] that Suc by simp
    qed
    with a Suc show ?thesis
      by (simp add: Let_def)
  qed
qed

lemma unique_fixes_distinct_labels:
  assumes "distinct (map label fs)"
  shows "unique_fixes numToString fs = fs"
proof -
  have "int i = findIndex (\<lambda>f. label f = label (fs ! i)
          \<and> JSON_stringify numToString (params f) = JSON_stringify numToString (params (fs ! i))) fs"
    if "i < length fs" for i
  proof (rule findIndex_first [symmetric])
    show "i < length fs" by (rule that)
    show "label (fs ! i) = label (fs ! i)
        \<and> JSON_stringify numToString (params (fs ! i))
          = JSON_stringify numToString (params (fs ! i))"
      by simp
    show "\<not> (label (fs ! j) = label (fs ! i)
        \<and> JSON_stringify numToString (params (fs ! j))
          = JSON_stringify numToString (params (fs ! i)))" if "j < i" for j
    proof -
      have "(map label fs ! j = map label fs ! i) = (j = i)"
        by (rule nth_eq_iff_index_eq [OF assms]) (use that \<open>i < length fs\<close> in simp_all)
      with that \<open>i < length fs\<close> show ?thesis
        by simp
    qed
  qed
  then have "filter
          (\<lambda>(index, fix). int index =
             findIndex
               (\<lambda>f. label f = label fix \<and>
                  JSON_stringify numToString (params f) = JSON_stringify numToString (params fix))
               fs)
          (enumerate 0 fs) = enumerate 0 fs"
    by (intro filter_True) (auto simp: in_set_enumerate_eq)
  then show ?thesis
    by (simp add: unique_fixes_def)
qed

lemma set_unique_fixes: "set (unique_fixes numToString fs) \<subseteq> set fs"
proof -
  have "set (unique_fixes numToString fs) \<subseteq> snd ` set (enumerate 0 fs)"
    unfolding unique_fixes_def by auto
  also have "\<dots> = set (map snd (enumerate 0 fs))"
    by (simp only: set_map)
  also have "\<dots> = set fs"
    by (simp only: map_snd_enumerate)
  finally show ?thesis .
qed

lemma eccentricity_rule_frame:
  "f \<in> set (snd (eccentricity_rule numToString p (ws, fs))) \<Longrightarrow>
   f \<in> set fs \<or> one_field_changed p f"
  by (auto simp: eccentricity_rule_def one_field_changed_def Let_def split: if_splits)

lemma pin_crowding_rule_frame:
  "f \<in> set (snd (pin_crowding_rule numToString p (ws, fs))) \<Longrightarrow>
   f \<in> set fs \<or> one_field_changed p f"
  by (auto simp: pin_crowding_rule_def one_field_changed_def Let_def split: if_splits)

lemma wall_thickness_rule_frame:
  "f \<in> set (snd (wall_thickness_rule numToString p (ws, fs))) \<Longrightarrow>
   f \<in> set fs \<or> one_field_changed p f"
  by (auto simp: wall_thickness_rule_def one_field_changed_def Let_def split: if_splits)

text \<open>
  C10. Every fix the advisor proposes carries the input parameter record with exactly one
  field set anew, the one its label names: the eccentricity for \<^verbatim>\<open>Reduce Eccentricity\<close>,
  the pin circle radius for \<^verbatim>\<open>Increase Radius\<close>, the pin radius for \<^verbatim>\<open>Shrink Pins\<close>,
  the hole radius for \<^verbatim>\<open>Shrink Center Hole\<close>. Every other field, the resolution, the
  tolerances and the output stage among them, is the input's.
\<close>

theorem fixes_change_one_field:
  "\<forall>fix\<in>set (fixes (getGeometricQuality numToString p)). one_field_changed p fix"
proof
  fix f
  assume "f \<in> set (fixes (getGeometricQuality numToString p))"
  then have "f \<in> set (snd (wall_thickness_rule numToString p
              (pin_crowding_rule numToString p
                (eccentricity_rule numToString p ([], [])))))"
    using set_unique_fixes by (auto simp: getGeometricQuality_def Let_def)
  then have "f \<in> set (snd (pin_crowding_rule numToString p
                (eccentricity_rule numToString p ([], [])))) \<or> one_field_changed p f"
    using wall_thickness_rule_frame [of f numToString p
        "fst (pin_crowding_rule numToString p (eccentricity_rule numToString p ([], [])))"
        "snd (pin_crowding_rule numToString p (eccentricity_rule numToString p ([], [])))"]
    by simp
  then have "f \<in> set (snd (eccentricity_rule numToString p ([], []))) \<or> one_field_changed p f"
    using pin_crowding_rule_frame [of f numToString p
        "fst (eccentricity_rule numToString p ([], []))"
        "snd (eccentricity_rule numToString p ([], []))"]
    by auto
  then show "one_field_changed p f"
    using eccentricity_rule_frame [of f numToString p "[]" "[]"] by auto
qed

lemma pushed_labels_distinct:
  "distinct (map label (snd (wall_thickness_rule numToString p
      (pin_crowding_rule numToString p (eccentricity_rule numToString p ([], []))))))"
  by (simp add: eccentricity_rule_def pin_crowding_rule_def wall_thickness_rule_def Let_def)

lemma getGeometricQuality_pushed:
  "warnings (getGeometricQuality numToString p) =
     fst (wall_thickness_rule numToString p
       (pin_crowding_rule numToString p (eccentricity_rule numToString p ([], []))))"
  "fixes (getGeometricQuality numToString p) =
     snd (wall_thickness_rule numToString p
       (pin_crowding_rule numToString p (eccentricity_rule numToString p ([], []))))"
  by (simp_all add: getGeometricQuality_def Let_def unique_fixes_distinct_labels
      pushed_labels_distinct)

lemma thin_quality:
  "warnings (getGeometricQuality numToString (js thin_params))
     = [''Wall thickness is critically low.'']"
  "fixes (getGeometricQuality numToString (js thin_params))
     = [\<lparr>label = ''Shrink Center Hole'',
         description = ''Set Hole R to '' @ numToString (Fin 2) @ ''mm'',
         params = (js thin_params)\<lparr>holeRadius := Fin 2\<rparr>\<rparr>]"
proof -
  have e: "eccentricity_rule numToString (js thin_params) ([], []) = ([], [])"
    by (simp add: eccentricity_rule_def thin_params_def Let_def)
  have c: "pin_crowding_rule numToString (js thin_params) ([], []) = ([], [])"
    using pi_ge_two by (simp add: pin_crowding_rule_def thin_params_def Let_def Math_PI_def)
  have w: "wall_thickness_rule numToString (js thin_params) ([], [])
      = ([''Wall thickness is critically low.''],
         [\<lparr>label = ''Shrink Center Hole'',
           description = ''Set Hole R to '' @ numToString (Fin 2) @ ''mm'',
           params = (js thin_params)\<lparr>holeRadius := Fin 2\<rparr>\<rparr>])"
    by (simp add: wall_thickness_rule_def Let_def) (simp add: thin_params_def)
  show "warnings (getGeometricQuality numToString (js thin_params))
     = [''Wall thickness is critically low.'']"
    and "fixes (getGeometricQuality numToString (js thin_params))
     = [\<lparr>label = ''Shrink Center Hole'',
         description = ''Set Hole R to '' @ numToString (Fin 2) @ ''mm'',
         params = (js thin_params)\<lparr>holeRadius := Fin 2\<rparr>\<rparr>]"
    by (simp_all only: getGeometricQuality_pushed e c w fst_conv snd_conv)
qed

theorem fixes_change_one_field_witness:
  "\<lparr>label = ''Shrink Center Hole'', description = ''Set Hole R to mm'',
     params = (js thin_params)\<lparr>holeRadius := Fin 2\<rparr>\<rparr>
     \<in> set (fixes (getGeometricQuality (\<lambda>v. []) (js thin_params)))
   \<and> one_field_changed (js thin_params)
       \<lparr>label = ''Shrink Center Hole'', description = ''Set Hole R to mm'',
        params = (js thin_params)\<lparr>holeRadius := Fin 2\<rparr>\<rparr>"
proof -
  have m: "\<lparr>label = ''Shrink Center Hole'', description = ''Set Hole R to mm'',
     params = (js thin_params)\<lparr>holeRadius := Fin 2\<rparr>\<rparr>
     \<in> set (fixes (getGeometricQuality (\<lambda>v. []) (js thin_params)))"
    by (simp add: thin_quality)
  with fixes_change_one_field [of "\<lambda>v. []" "js thin_params"] show ?thesis
    by blast
qed

text \<open>
  C4. The claim has no hole fix proposed when the wall-thickness rule fires with
  \<open>approxInnerRadius - 2 \<le> 0\<close>. For \<open>thin_params\<close> the estimated inner radius is 1, below
  the hole radius 5 plus 1.5, so the rule fires, and \<open>1 - 2 \<le> 0\<close>; the function returns
  the warning together with the fix \<^verbatim>\<open>Shrink Center Hole\<close>, of hole radius 2: the guard
  \<^verbatim>\<open>safeHole > 0\<close> tests a value that \<^verbatim>\<open>Math.max(2, ...)\<close> has already raised to 2.
\<close>

theorem hole_fix_proposed_below_two:
  "pinCircleRadius thin_params - real (pinCount thin_params) * eccentricity thin_params
      - pinRadius thin_params = 1
   \<and> holeRadius thin_params = 5
   \<and> warnings (getGeometricQuality (\<lambda>v. []) (js thin_params))
       = [''Wall thickness is critically low.'']
   \<and> fixes (getGeometricQuality (\<lambda>v. []) (js thin_params))
       = [\<lparr>label = ''Shrink Center Hole'', description = ''Set Hole R to mm'',
           params = (js thin_params)\<lparr>holeRadius := Fin 2\<rparr>\<rparr>]"
  by (simp add: thin_quality) (simp add: thin_params_def)

text \<open>
  The same holds at every finite parameter set: whenever the wall-thickness rule fires it
  pushes the fix \<^verbatim>\<open>Shrink Center Hole\<close>, because the rounded hole radius is at least 2.
\<close>

lemma rounded_hole_positive:
  assumes "2 \<le> m"
  shows "Fin 0 < parseFloat_toFixed 1 (Fin m)"
proof (cases "10 ^ 21 \<le> \<bar>m\<bar>")
  case True
  with assms show ?thesis by simp
next
  case False
  from assms have "(1::real) \<le> m * 10 ^ 1 + 1 / 2"
    by simp
  then have "1 \<le> \<lfloor>m * 10 ^ 1 + 1 / 2\<rfloor>"
    by (simp only: le_floor_iff of_int_1)
  then have "0 < real (nat \<lfloor>m * 10 ^ 1 + 1 / 2\<rfloor>)"
    by simp
  with False assms show ?thesis
    by simp
qed

lemma wall_thickness_rule_fires:
  fixes p :: "real cyclo_params"
  assumes "pinCircleRadius p - real (pinCount p) * eccentricity p - pinRadius p
           < holeRadius p + 1.5"
  shows "wall_thickness_rule numToString (js p) (ws, fs) =
     (ws @ [''Wall thickness is critically low.''],
      fs @ [\<lparr>label = ''Shrink Center Hole'',
             description = ''Set Hole R to ''
               @ numToString (parseFloat_toFixed 1 (Fin (max 2
                   (pinCircleRadius p - real (pinCount p) * eccentricity p - pinRadius p - 2))))
               @ ''mm'',
             params = (js p)\<lparr>holeRadius := parseFloat_toFixed 1 (Fin (max 2
                   (pinCircleRadius p - real (pinCount p) * eccentricity p - pinRadius p - 2)))\<rparr>\<rparr>])"
proof -
  define a where "a = pinCircleRadius p - real (pinCount p) * eccentricity p - pinRadius p"
  define m where "m = max 2 (a - 2)"
  have inner: "pinCircleRadius (js p) - Fin (real (pinCount (js p))) * eccentricity (js p)
                 - pinRadius (js p) = Fin a"
    by (simp add: a_def)
  have fires: "Fin a < holeRadius (js p) + Fin 1.5"
    using assms by (simp add: a_def)
  have maxHole: "Math_max (Fin 2) (Fin a - Fin 2.0) = Fin m"
    by (simp add: m_def max_def)
  have pos: "Fin 0 < parseFloat_toFixed 1 (Fin m)"
    by (rule rounded_hole_positive) (simp add: m_def)
  have "wall_thickness_rule numToString (js p) (ws, fs) =
     (ws @ [''Wall thickness is critically low.''],
      fs @ [\<lparr>label = ''Shrink Center Hole'',
             description = ''Set Hole R to '' @ numToString (parseFloat_toFixed 1 (Fin m)) @ ''mm'',
             params = (js p)\<lparr>holeRadius := parseFloat_toFixed 1 (Fin m)\<rparr>\<rparr>])"
    unfolding wall_thickness_rule_def Let_def inner
    by (simp only: fires maxHole pos if_True prod.case)
  then show ?thesis
    unfolding m_def a_def .
qed

lemma eccentricity_rule_fires:
  assumes "pinCircleRadius q / (Fin 1.5 * Fin (real (pinCount q))) < eccentricity q"
  shows "eccentricity_rule numToString q ([], []) =
     ([''Eccentricity ('' @ numToString (eccentricity q) @ ''mm) is too high for this radius.''],
      [\<lparr>label = ''Reduce Eccentricity'',
        description = ''Lower E to ''
          @ numToString (parseFloat_toFixed 2 (pinCircleRadius q / (Fin 2 * Fin (real (pinCount q)))))
          @ ''mm'',
        params = q\<lparr>eccentricity :=
          parseFloat_toFixed 2 (pinCircleRadius q / (Fin 2 * Fin (real (pinCount q))))\<rparr>\<rparr>,
       \<lparr>label = ''Increase Radius'',
        description = ''Enlarge R to ''
          @ numToString (parseFloat_toFixed 1 (eccentricity q * Fin 2 * Fin (real (pinCount q))))
          @ ''mm'',
        params = q\<lparr>pinCircleRadius :=
          parseFloat_toFixed 1 (eccentricity q * Fin 2 * Fin (real (pinCount q)))\<rparr>\<rparr>])"
  using assms by (simp add: eccentricity_rule_def Let_def)

lemma rule_appends:
  "\<exists>ws' fs'. pin_crowding_rule numToString q (ws, fs) = (ws @ ws', fs @ fs')"
  "\<exists>ws' fs'. wall_thickness_rule numToString q (ws, fs) = (ws @ ws', fs @ fs')"
  by (simp_all add: pin_crowding_rule_def wall_thickness_rule_def Let_def)

lemma quality_after_eccentricity_rule:
  assumes "eccentricity_rule numToString q ([], []) = (w # ws, [f1, f2])"
  shows "hd (warnings (getGeometricQuality numToString q)) = w"
    and "warnings (getGeometricQuality numToString q) \<noteq> []"
    and "take 2 (fixes (getGeometricQuality numToString q)) = [f1, f2]"
    and "hd (fixes (getGeometricQuality numToString q)) = f1"
proof -
  obtain ws1 fs1 where 1: "pin_crowding_rule numToString q (w # ws, [f1, f2])
      = (w # ws @ ws1, f1 # f2 # fs1)"
    using rule_appends(1) [of numToString q "w # ws" "[f1, f2]"] by auto
  obtain ws2 fs2 where 2: "wall_thickness_rule numToString q (w # ws @ ws1, f1 # f2 # fs1)
      = (w # ws @ ws1 @ ws2, f1 # f2 # fs1 @ fs2)"
    using rule_appends(2) [of numToString q "w # ws @ ws1" "f1 # f2 # fs1"] by auto
  show "hd (warnings (getGeometricQuality numToString q)) = w"
    and "warnings (getGeometricQuality numToString q) \<noteq> []"
    and "take 2 (fixes (getGeometricQuality numToString q)) = [f1, f2]"
    and "hd (fixes (getGeometricQuality numToString q)) = f1"
    by (simp_all add: getGeometricQuality_pushed assms 1 2)
qed

lemma round2_not_above:
  fixes v :: real
  assumes "0 \<le> v" and "v < 1 / 200 \<or> 3 / 400 \<le> v"
  shows "real (nat \<lfloor>v * 10 ^ 2 + 1 / 2\<rfloor>) / 10 ^ 2 \<le> 4 / 3 * v"
proof -
  define k where "k = \<lfloor>v * 10 ^ 2 + 1 / 2\<rfloor>"
  have up: "of_int k \<le> v * 100 + 1 / 2"
    unfolding k_def using of_int_floor_le [of "v * 10 ^ 2 + 1 / 2"] by simp
  have k0: "0 \<le> k"
    unfolding k_def using assms(1) by (simp add: zero_le_floor)
  then have r: "real (nat k) = of_int k"
    by simp
  from assms(2) have "of_int k / 100 \<le> 4 / 3 * v"
  proof
    assume "v < 1 / 200"
    then have "v * 10 ^ 2 + 1 / 2 < 1"
      by simp
    then have "k < 1"
      unfolding k_def by (simp add: floor_less_iff)
    with k0 have "k = 0"
      by simp
    with assms(1) show ?thesis
      by simp
  next
    assume v: "3 / 400 \<le> v"
    show ?thesis
    proof (cases "k \<le> 1")
      case True
      then have "(of_int k :: real) \<le> 1"
        by (metis of_int_le_iff of_int_1)
      with v show ?thesis
        by simp
    next
      case False
      then have "2 \<le> k"
        by simp
      then have "(2::real) \<le> of_int k"
        by (metis of_int_le_iff of_int_numeral)
      with up show ?thesis
        by simp
    qed
  qed
  then show ?thesis
    unfolding k_def [symmetric] r by simp
qed

lemma safe_eccentricity_not_above:
  fixes p :: "real cyclo_params"
  assumes N: "0 < pinCount p" and R: "0 \<le> pinCircleRadius p"
    and band: "pinCircleRadius p / real (pinCount p) < 1 / 100
      \<or> 15 / 1000 \<le> pinCircleRadius p / real (pinCount p)"
  shows "\<not> Fin (pinCircleRadius p / (1.5 * real (pinCount p))) < safe_eccentricity p"
proof -
  define v where "v = pinCircleRadius p / (2 * real (pinCount p))"
  have v0: "0 \<le> v"
    using N R by (simp add: v_def)
  have m: "pinCircleRadius p / (1.5 * real (pinCount p)) = 4 / 3 * v"
    using N by (simp add: v_def)
  have rn: "pinCircleRadius p / real (pinCount p) = 2 * v"
    using N by (simp add: v_def)
  have "v < 1 / 200 \<or> 3 / 400 \<le> v"
    using band unfolding rn by auto
  from round2_not_above [OF v0 this] v0 show ?thesis
    unfolding safe_eccentricity_def m v_def [symmetric]
    by (simp add: not_less)
qed





end
